theory Spec2Isabelle
  imports Complex_Main "HOL-Library.AList"
begin

section \<open>Python strings and integers\<close>

text \<open>
  Strings are lists of characters. \<open>is_space\<close> is the whitespace test of
  \<open>str.strip()\<close> and \<open>str.split()\<close> on the code points below 256.
\<close>

definition is_space :: "char \<Rightarrow> bool" where
  "is_space c = ((of_char c :: nat) \<in> {9, 10, 11, 12, 13, 28, 29, 30, 31, 32, 133, 160})"

definition py_strip :: "string \<Rightarrow> string" where
  "py_strip s = rev (dropWhile is_space (rev (dropWhile is_space s)))"

definition is_digit :: "char \<Rightarrow> bool" where
  "is_digit c = (c \<in> set ''0123456789'')"

definition digit_val :: "char \<Rightarrow> nat" where
  "digit_val c = of_char c - 48"

definition digit_char :: "nat \<Rightarrow> char" where
  "digit_char d = ''0123456789'' ! d"

text \<open>\<open>str(n)\<close> for an integer: decimal digits, with a minus sign when negative.\<close>

fun digits :: "nat \<Rightarrow> string" where
  "digits n = (if n < 10 then [digit_char n] else digits (n div 10) @ [digit_char (n mod 10)])"

declare digits.simps [simp del]

definition py_str :: "int \<Rightarrow> string" where
  "py_str i = (if i < 0 then CHR ''-'' # digits (nat (- i)) else digits (nat i))"

text \<open>
  \<open>int(s)\<close> for a string: surrounding whitespace is dropped, one sign is allowed,
  then decimal digits with single underscores between them. Anything else raises
  ValueError, here \<open>None\<close>, and so does a number of more than 4300 digits.

  The whitespace of \<open>int\<close> is not that of \<open>str.strip()\<close>: it is the whitespace of C,
  and the two whitespace code points above 126, which \<open>int\<close> turns into spaces before
  it reads the number. The separators 28 to 31 are not part of it.
\<close>

definition is_int_space :: "char \<Rightarrow> bool" where
  "is_int_space c = ((of_char c :: nat) \<in> {9, 10, 11, 12, 13, 32, 133, 160})"

definition int_max_str_digits :: nat where
  "int_max_str_digits = 4300"

fun digit_run :: "nat \<Rightarrow> string \<Rightarrow> nat option" where
  "digit_run acc [] = Some acc"
| "digit_run acc (c # cs) =
     (if is_digit c then digit_run (acc * 10 + digit_val c) cs
      else if c = CHR ''_'' then
        (case cs of
           [] \<Rightarrow> None
         | d # ds \<Rightarrow> if is_digit d then digit_run (acc * 10 + digit_val d) ds else None)
      else None)"

definition py_digits :: "string \<Rightarrow> nat option" where
  "py_digits s =
     (case s of
        [] \<Rightarrow> None
      | c # cs \<Rightarrow> if is_digit c then digit_run (digit_val c) cs else None)"

definition py_int :: "string \<Rightarrow> int option" where
  "py_int s =
     (case rev (dropWhile is_int_space (rev (dropWhile is_int_space s))) of
        [] \<Rightarrow> None
      | c # cs \<Rightarrow>
          if int_max_str_digits < length (filter is_digit (c # cs)) then None
          else if c = CHR ''-'' then map_option (\<lambda>n. - int n) (py_digits cs)
          else if c = CHR ''+'' then map_option int (py_digits cs)
          else map_option int (py_digits (c # cs)))"

section \<open>The schema\<close>

text \<open>
  One record per model class, with the columns of the class; a nullable column is an
  option. A date is the day number of a \<open>datetime.date\<close>, a timestamp a number of
  seconds.
\<close>

type_synonym date = int

record category =
  c_id :: int
  c_name :: string

record checklist_item =
  ci_id :: int
  ci_category_id :: "int option"
  ci_text :: string
  ci_original_spec :: "string option"

record audit =
  a_id :: int
  a_vendor :: string
  a_audit_date :: date
  a_audit_area :: string
  a_created_at :: nat

record audit_item =
  ai_id :: int
  ai_audit_id :: "int option"
  ai_checklist_item_id :: "int option"
  ai_score :: "int option"
  ai_record :: "string option"
  ai_photo_filename :: "string option"

text \<open>
  The persisted state: the committed rows of the four tables, each in rowid order, the
  names of the files in the upload folder, and the names in that folder that the file
  system refuses to write or to remove.
\<close>

record state =
  categories :: "category list"
  checklist_items :: "checklist_item list"
  audits :: "audit list"
  audit_items :: "audit_item list"
  uploads :: "string list"
  protected :: "string list"

text \<open>
  A request: its method, the form fields, the uploaded files (field name to the file
  name the client sent) and the clock read by \<open>datetime.utcnow\<close>.
\<close>

record request =
  rq_method :: string
  form :: "string \<rightharpoonup> string"
  files :: "string \<rightharpoonup> string"
  utcnow :: nat

text \<open>
  How a request ends when it does not return a response: \<open>NotFound\<close> is the 404 of
  \<open>get_or_404\<close>, \<open>BadRequest\<close> the 400 of a missing form key; \<open>ValueError\<close>,
  \<open>AttributeError\<close>, \<open>OverflowError\<close> and \<open>OSError\<close> are uncaught exceptions (a 500
  response).
\<close>

datatype error = NotFound | BadRequest | ValueError | AttributeError | OverflowError | OSError

text \<open>
  An INTEGER of SQLite is a signed 64-bit number. The driver raises OverflowError when
  it is given any other Python integer, as a key to look up or as a value to store.
\<close>

definition in_int64 :: "int \<Rightarrow> bool" where
  "in_int64 i = (- (2 ^ 63) \<le> i \<and> i < 2 ^ 63)"

text \<open>The id SQLite gives a new row: one more than the largest rowid, 1 in an empty table.\<close>

definition next_id :: "int list \<Rightarrow> int" where
  "next_id ids = (case ids of [] \<Rightarrow> 1 | x # xs \<Rightarrow> fold max xs x + 1)"

text \<open>
  The row with primary key \<open>i\<close>. A key is an INTEGER of SQLite, so there is no row for
  an \<open>i\<close> outside the 64-bit range; a handler that takes \<open>i\<close> from the request tests the
  range before it looks the row up, since the driver raises there.
\<close>

definition get_category :: "state \<Rightarrow> int \<Rightarrow> category option" where
  "get_category st i = (if in_int64 i then find (\<lambda>c. c_id c = i) (categories st) else None)"

definition get_checklist_item :: "state \<Rightarrow> int \<Rightarrow> checklist_item option" where
  "get_checklist_item st i =
     (if in_int64 i then find (\<lambda>ci. ci_id ci = i) (checklist_items st) else None)"

definition get_audit :: "state \<Rightarrow> int \<Rightarrow> audit option" where
  "get_audit st i = (if in_int64 i then find (\<lambda>a. a_id a = i) (audits st) else None)"

text \<open>
  \<open>Audit.query.get_or_404(i)\<close>: OverflowError from the driver for an \<open>i\<close> outside the
  64-bit range, the 404 when no audit has the key \<open>i\<close>, the audit otherwise.
\<close>

definition get_or_404 :: "state \<Rightarrow> int \<Rightarrow> error + audit" where
  "get_or_404 st i =
     (if \<not> in_int64 i then Inl OverflowError
      else case get_audit st i of None \<Rightarrow> Inl NotFound | Some a \<Rightarrow> Inr a)"

section \<open>Responses\<close>

text \<open>The rows of the two spreadsheets, one field per column.\<close>

record audit_row =
  ar_no :: nat
  ar_category :: string
  ar_checking_item :: string
  ar_score :: "int option"
  ar_record :: string
  ar_vendor :: string
  ar_audit_date :: date
  ar_audit_area :: string

record mil_row =
  m_no :: nat
  m_checking_item :: string
  m_category :: string
  m_record :: string
  m_status :: string
  m_action :: string
  m_vendor_dri :: string
  m_due_date :: string
  m_closed_date :: string
  m_remark :: string

text \<open>
  What the audits page shows for one audit: the audit, each category with its
  percentage in the order the categories were met, and the total percentage.
\<close>

record audit_line =
  al_audit :: audit
  al_categories :: "(string \<times> rat) list"
  al_total :: rat

text \<open>
  A response: a redirect with the messages flashed before it, a rendered page, the
  audits page with its lines, or a spreadsheet with its rows.
\<close>

datatype response =
    Redirect string "string list"
  | Page
  | AuditsPage "audit_line list"
  | AuditSheet "audit_row list"
  | MilSheet "mil_row list"

section \<open>Checklist\<close>

text \<open>The branch of \<open>checklist\<close> taken when the form has \<open>category_name\<close>.\<close>

definition add_category :: "state \<Rightarrow> string \<Rightarrow> (error + response) \<times> state" where
  "add_category st category_name =
     (let name = py_strip category_name in
      if name \<noteq> [] \<and> find (\<lambda>c. c_name c = name) (categories st) = None
      then (Inr (Redirect ''/checklist'' [''Category added'']),
            st\<lparr>categories := categories st @
                 [\<lparr>c_id = next_id (map c_id (categories st)), c_name = name\<rparr>]\<rparr>)
      else (Inr (Redirect ''/checklist'' [''Category exists or empty'']), st))"

text \<open>
  The branch taken when the form has \<open>item_id\<close>. \<open>query.get\<close> hands the id to the
  driver, which raises for an id outside the 64-bit range. The right-hand side
  \<open>request.form['item_text']\<close> is evaluated before the attribute of \<open>item\<close> is set,
  so a missing key is reported before a missing row.
\<close>

definition update_checklist_item ::
  "state \<Rightarrow> request \<Rightarrow> string \<Rightarrow> (error + response) \<times> state" where
  "update_checklist_item st rq item_id =
     (case py_int item_id of
        None \<Rightarrow> (Inl ValueError, st)
      | Some i \<Rightarrow>
          if \<not> in_int64 i then (Inl OverflowError, st)
          else
            (case form rq ''item_text'' of
               None \<Rightarrow> (Inl BadRequest, st)
             | Some text \<Rightarrow>
                 (case get_checklist_item st i of
                    None \<Rightarrow> (Inl AttributeError, st)
                  | Some item \<Rightarrow>
                      (let original_spec =
                             (case form rq ''original_spec'' of None \<Rightarrow> [] | Some s \<Rightarrow> s)
                       in (Inr (Redirect ''/checklist'' [''Checklist item updated'']),
                           st\<lparr>checklist_items :=
                                map (\<lambda>ci. if ci_id ci = i
                                           then ci\<lparr>ci_text := text,
                                                   ci_original_spec := Some original_spec\<rparr>
                                           else ci)
                                    (checklist_items st)\<rparr>)))))"

text \<open>
  The branch taken when the form has \<open>item_text\<close> and no \<open>item_id\<close>. SQLite does not
  check the foreign key, so any \<open>category_id\<close> that fits an INTEGER is stored; for one
  that does not, the insert raises.
\<close>

definition add_checklist_item ::
  "state \<Rightarrow> request \<Rightarrow> string \<Rightarrow> (error + response) \<times> state" where
  "add_checklist_item st rq item_text =
     (case form rq ''category_id'' of
        None \<Rightarrow> (Inl BadRequest, st)
      | Some cid \<Rightarrow>
          (case py_int cid of
             None \<Rightarrow> (Inl ValueError, st)
           | Some category_id \<Rightarrow>
               (let text = py_strip item_text;
                    original_spec =
                      py_strip (case form rq ''original_spec'' of None \<Rightarrow> [] | Some s \<Rightarrow> s)
                in if text \<noteq> []
                   then
                     (if in_int64 category_id
                      then (Inr (Redirect ''/checklist'' [''Checklist item added'']),
                            st\<lparr>checklist_items := checklist_items st @
                                 [\<lparr>ci_id = next_id (map ci_id (checklist_items st)),
                                   ci_category_id = Some category_id,
                                   ci_text = text,
                                   ci_original_spec = Some original_spec\<rparr>]\<rparr>)
                      else (Inl OverflowError, st))
                   else (Inr (Redirect ''/checklist'' []), st))))"

definition checklist :: "state \<Rightarrow> request \<Rightarrow> (error + response) \<times> state" where
  "checklist st rq =
     (if rq_method rq = ''POST'' then
        (case form rq ''category_name'' of
           Some category_name \<Rightarrow> add_category st category_name
         | None \<Rightarrow>
             (case form rq ''item_id'' of
                Some item_id \<Rightarrow> update_checklist_item st rq item_id
              | None \<Rightarrow>
                  (case form rq ''item_text'' of
                     Some item_text \<Rightarrow> add_checklist_item st rq item_text
                   | None \<Rightarrow> (Inr Page, st))))
      else (Inr Page, st))"

section \<open>Relationships\<close>

text \<open>
  \<open>ai.checklist_item\<close>, \<open>item.category\<close>, \<open>ai.audit\<close> and \<open>audit.audit_items\<close>: the
  row the foreign key names, \<open>None\<close> when the key is null or names no row.
\<close>

definition checklist_item_of :: "state \<Rightarrow> audit_item \<Rightarrow> checklist_item option" where
  "checklist_item_of st ai =
     (case ai_checklist_item_id ai of None \<Rightarrow> None | Some i \<Rightarrow> get_checklist_item st i)"

definition category_of :: "state \<Rightarrow> checklist_item \<Rightarrow> category option" where
  "category_of st ci =
     (case ci_category_id ci of None \<Rightarrow> None | Some i \<Rightarrow> get_category st i)"

definition audit_of :: "state \<Rightarrow> audit_item \<Rightarrow> audit option" where
  "audit_of st ai = (case ai_audit_id ai of None \<Rightarrow> None | Some i \<Rightarrow> get_audit st i)"

definition audit_items_of :: "state \<Rightarrow> audit \<Rightarrow> audit_item list" where
  "audit_items_of st a = filter (\<lambda>ai. ai_audit_id ai = Some (a_id a)) (audit_items st)"

text \<open>
  \<open>ai.checklist_item.category.name\<close>: reading an attribute of \<open>None\<close> raises
  AttributeError.
\<close>

definition category_name_of :: "state \<Rightarrow> audit_item \<Rightarrow> error + string" where
  "category_name_of st ai =
     (case checklist_item_of st ai of
        None \<Rightarrow> Inl AttributeError
      | Some ci \<Rightarrow>
          (case category_of st ci of
             None \<Rightarrow> Inl AttributeError
           | Some c \<Rightarrow> Inr (c_name c)))"

section \<open>Audits list\<close>

record cat_score =
  cs_sum :: int
  cs_count :: nat

text \<open>
  \<open>category_scores\<close> is a dictionary, here an association list in insertion order.
  \<open>tally_item\<close> is what one pass of the loop body does to it: the entry of the
  category is created when missing, the score is added to its sum unless it is
  \<open>None\<close>, and its count goes up by one.
\<close>

definition tally_item ::
  "string \<Rightarrow> int option \<Rightarrow> (string \<times> cat_score) list \<Rightarrow> (string \<times> cat_score) list" where
  "tally_item cat score category_scores =
     (let d0 = (case map_of category_scores cat of
                  None \<Rightarrow> AList.update cat \<lparr>cs_sum = 0, cs_count = 0\<rparr> category_scores
                | Some _ \<Rightarrow> category_scores);
          d1 = (case score of
                  None \<Rightarrow> d0
                | Some s \<Rightarrow> AList.map_entry cat (\<lambda>e. e\<lparr>cs_sum := cs_sum e + s\<rparr>) d0)
      in AList.map_entry cat (\<lambda>e. e\<lparr>cs_count := cs_count e + 1\<rparr>) d1)"

text \<open>The loop over \<open>a.audit_items\<close>, with the two running totals.\<close>

fun tally ::
  "state \<Rightarrow> audit_item list \<Rightarrow> (string \<times> cat_score) list \<times> int \<times> nat \<Rightarrow>
   error + (string \<times> cat_score) list \<times> int \<times> nat" where
  "tally st [] acc = Inr acc"
| "tally st (ai # ais) (category_scores, total_score, total_items) =
     (case category_name_of st ai of
        Inl e \<Rightarrow> Inl e
      | Inr cat \<Rightarrow>
          tally st ais
            (tally_item cat (ai_score ai) category_scores,
             (case ai_score ai of None \<Rightarrow> total_score | Some s \<Rightarrow> total_score + s),
             total_items + 1))"

text \<open>
  \<open>(sum / (count*3)*100) if count else 0\<close>. Python computes the quotient in floating
  point; the model keeps the exact quotient.
\<close>

definition percentage :: "int \<Rightarrow> nat \<Rightarrow> rat" where
  "percentage s n = (if n \<noteq> 0 then of_int s / of_nat (n * 3) * 100 else 0)"

fun audit_lines :: "state \<Rightarrow> audit list \<Rightarrow> error + audit_line list" where
  "audit_lines st [] = Inr []"
| "audit_lines st (a # as) =
     (case tally st (audit_items_of st a) ([], 0, 0) of
        Inl e \<Rightarrow> Inl e
      | Inr (category_scores, total_score, total_items) \<Rightarrow>
          (case audit_lines st as of
             Inl e \<Rightarrow> Inl e
           | Inr ls \<Rightarrow>
               Inr (\<lparr>al_audit = a,
                     al_categories =
                       map (\<lambda>(cat, sc). (cat, percentage (cs_sum sc) (cs_count sc)))
                           category_scores,
                     al_total = percentage total_score total_items\<rparr> # ls)))"

text \<open>\<open>Audit.query.order_by(Audit.audit_date.desc())\<close>, then one line per audit.\<close>

definition audits_list :: "state \<Rightarrow> (error + response) \<times> state" where
  "audits_list st =
     (case audit_lines st (sort_key (\<lambda>a. - a_audit_date a) (audits st)) of
        Inl e \<Rightarrow> (Inl e, st)
      | Inr ls \<Rightarrow> (Inr (AuditsPage ls), st))"

section \<open>New audit\<close>

text \<open>
  \<open>werkzeug.utils.secure_filename\<close> on a POSIX system, where the only path separator
  is the slash. The name is brought to ASCII first: an ASCII character stays, any
  other character is replaced by the ASCII part of its compatibility decomposition,
  which the parameter \<open>nfkd\<close> gives. Then separators become spaces, the words are
  joined by underscores, every character outside \<open>[A-Za-z0-9_.-]\<close> is dropped, and
  dots and underscores are stripped from both ends.
\<close>

definition is_ascii :: "char \<Rightarrow> bool" where
  "is_ascii c = ((of_char c :: nat) < 128)"

definition to_ascii :: "(char \<Rightarrow> string) \<Rightarrow> string \<Rightarrow> string" where
  "to_ascii nfkd s =
     filter is_ascii (concat (map (\<lambda>c. if is_ascii c then [c] else nfkd c) s))"

fun split_ws :: "string \<Rightarrow> string \<Rightarrow> string list" where
  "split_ws cur [] = (if cur = [] then [] else [cur])"
| "split_ws cur (c # cs) =
     (if is_space c then (if cur = [] then split_ws [] cs else cur # split_ws [] cs)
      else split_ws (cur @ [c]) cs)"

definition py_split :: "string \<Rightarrow> string list" where
  "py_split s = split_ws [] s"

fun join :: "string \<Rightarrow> string list \<Rightarrow> string" where
  "join sep [] = []"
| "join sep [w] = w"
| "join sep (w # v # ws) = w @ sep @ join sep (v # ws)"

definition filename_char :: "char \<Rightarrow> bool" where
  "filename_char c =
     (c \<in> set ''ABCDEFGHIJKLMNOPQRSTUVWXYZabcdefghijklmnopqrstuvwxyz0123456789_.-'')"

definition strip_chars :: "string \<Rightarrow> string \<Rightarrow> string" where
  "strip_chars cs s =
     rev (dropWhile (\<lambda>c. c \<in> set cs) (rev (dropWhile (\<lambda>c. c \<in> set cs) s)))"

definition secure_filename :: "(char \<Rightarrow> string) \<Rightarrow> string \<Rightarrow> string" where
  "secure_filename nfkd filename =
     (let f1 = to_ascii nfkd filename;
          f2 = map (\<lambda>c. if c = CHR ''/'' then CHR '' '' else c) f1;
          f3 = filter filename_char (join ''_'' (py_split f2))
      in strip_chars ''._'' f3)"

text \<open>The name a photo is stored under: \<open>secure_filename(f"{audit.id}_{item.id}_{photo.filename}")\<close>.\<close>

definition photo_name :: "(char \<Rightarrow> string) \<Rightarrow> int \<Rightarrow> int \<Rightarrow> string \<Rightarrow> string" where
  "photo_name nfkd audit_id item_id filename =
     secure_filename nfkd (py_str audit_id @ ''_'' @ py_str item_id @ ''_'' @ filename)"

text \<open>
  \<open>photo.save(path)\<close>: the file is in the upload folder afterwards, unless the file
  system refuses the name; then it raises OSError, here \<open>None\<close>.
\<close>

definition save :: "string \<Rightarrow> string list \<Rightarrow> string list \<Rightarrow> unit option \<times> string list" where
  "save name prot ups =
     (if name \<in> set prot then (None, ups) else (Some (), List.insert name ups))"

text \<open>
  The loop over the checklist items. The rows are added to the session and are
  committed only after the loop, so the loop carries them as pending rows; a saved
  photo is on disk at once. \<open>nid\<close> is the id the next row will get. When saving the
  photo or \<open>int(score)\<close> raises, the pending rows are lost and the photos saved so far
  stay. So they are when a score does not fit an INTEGER: the session sends the row
  of an item to the database when the next item is read, or at the commit after the
  last one, and the driver raises there, before anything of a later item is done.
\<close>

fun add_items ::
  "(char \<Rightarrow> string) \<Rightarrow> request \<Rightarrow> string list \<Rightarrow> int \<Rightarrow> checklist_item list \<Rightarrow> int \<Rightarrow>
   audit_item list \<Rightarrow> string list \<Rightarrow> (error + audit_item list) \<times> string list" where
  "add_items nfkd rq prot audit_id [] nid pending ups = (Inr pending, ups)"
| "add_items nfkd rq prot audit_id (item # items) nid pending ups =
     (let score = form rq (''score_'' @ py_str (ci_id item));
          record = form rq (''record_'' @ py_str (ci_id item));
          photo = files rq (''photo_'' @ py_str (ci_id item));
          filename = (case photo of
                        None \<Rightarrow> None
                      | Some fn \<Rightarrow>
                          if fn \<noteq> [] then Some (photo_name nfkd audit_id (ci_id item) fn)
                          else None)
      in case (case filename of None \<Rightarrow> (Some (), ups) | Some name \<Rightarrow> save name prot ups) of
           (None, ups') \<Rightarrow> (Inl OSError, ups')
         | (Some saved, ups') \<Rightarrow>
             (case (case score of
                      None \<Rightarrow> Inr None
                    | Some sc \<Rightarrow>
                        if sc \<noteq> [] then
                          (case py_int sc of None \<Rightarrow> Inl ValueError | Some n \<Rightarrow> Inr (Some n))
                        else Inr None) of
                Inl e \<Rightarrow> (Inl e, ups')
              | Inr score' \<Rightarrow>
                  if (case score' of None \<Rightarrow> False | Some n \<Rightarrow> \<not> in_int64 n)
                  then (Inl OverflowError, ups')
                  else
                    add_items nfkd rq prot audit_id items (nid + 1)
                      (pending @
                       [\<lparr>ai_id = nid, ai_audit_id = Some audit_id,
                         ai_checklist_item_id = Some (ci_id item), ai_score = score',
                         ai_record = record, ai_photo_filename = filename\<rparr>])
                      ups'))"

text \<open>
  The POST branch of \<open>new_audit\<close>. \<open>fromisoformat\<close> is the date parser of the standard
  library, \<open>None\<close> where it raises ValueError. The header is committed before the loop
  starts, the item rows after it.
\<close>

definition new_audit ::
  "(string \<Rightarrow> date option) \<Rightarrow> (char \<Rightarrow> string) \<Rightarrow> state \<Rightarrow> request \<Rightarrow>
   (error + response) \<times> state" where
  "new_audit fromisoformat nfkd st rq =
     (let items = sort_key ci_id (checklist_items st) in
      if rq_method rq = ''POST'' then
        (case form rq ''vendor'' of
           None \<Rightarrow> (Inl BadRequest, st)
         | Some vendor \<Rightarrow>
             (case form rq ''audit_date'' of
                None \<Rightarrow> (Inl BadRequest, st)
              | Some d \<Rightarrow>
                  (case fromisoformat d of
                     None \<Rightarrow> (Inl ValueError, st)
                   | Some audit_date \<Rightarrow>
                       (case form rq ''audit_area'' of
                          None \<Rightarrow> (Inl BadRequest, st)
                        | Some audit_area \<Rightarrow>
                            (let audit = \<lparr>a_id = next_id (map a_id (audits st)),
                                          a_vendor = vendor, a_audit_date = audit_date,
                                          a_audit_area = audit_area,
                                          a_created_at = utcnow rq\<rparr>;
                                 st1 = st\<lparr>audits := audits st @ [audit]\<rparr>
                             in case add_items nfkd rq (protected st1) (a_id audit) items
                                       (next_id (map ai_id (audit_items st1))) []
                                       (uploads st1) of
                                  (Inl e, ups) \<Rightarrow> (Inl e, st1\<lparr>uploads := ups\<rparr>)
                                | (Inr pending, ups) \<Rightarrow>
                                    (Inr (Redirect ''/audits'' [''Audit created successfully!'']),
                                     st1\<lparr>audit_items := audit_items st1 @ pending,
                                         uploads := ups\<rparr>))))))
      else (Inr Page, st))"

section \<open>Delete audit\<close>

text \<open>
  \<open>os.remove\<close> raises when the file is not there or the file system refuses to remove
  it; the caller swallows the exception, so only the folder afterwards matters.
\<close>

definition os_remove :: "string \<Rightarrow> string list \<Rightarrow> string list \<Rightarrow> unit option \<times> string list" where
  "os_remove name prot ups =
     (if name \<in> set ups \<and> name \<notin> set prot then (Some (), removeAll name ups)
      else (None, ups))"

fun delete_items :: "audit_item list \<Rightarrow> state \<Rightarrow> state" where
  "delete_items [] st = st"
| "delete_items (ai # ais) st =
     (let ups = (case ai_photo_filename ai of
                   None \<Rightarrow> uploads st
                 | Some name \<Rightarrow>
                     if name \<noteq> [] then snd (os_remove name (protected st) (uploads st))
                     else uploads st)
      in delete_items ais
           (st\<lparr>uploads := ups,
               audit_items := filter (\<lambda>x. ai_id x \<noteq> ai_id ai) (audit_items st)\<rparr>))"

definition delete_audit :: "state \<Rightarrow> int \<Rightarrow> (error + response) \<times> state" where
  "delete_audit st audit_id =
     (case get_or_404 st audit_id of
        Inl e \<Rightarrow> (Inl e, st)
      | Inr audit \<Rightarrow>
          (let st1 = delete_items (audit_items_of st audit) st;
               st2 = st1\<lparr>audits := filter (\<lambda>a. a_id a \<noteq> a_id audit) (audits st1)\<rparr>
           in (Inr (Redirect ''/audits'' [''Audit deleted successfully.'']), st2)))"

section \<open>Exports\<close>

text \<open>\<open>x or ''\<close> for an optional string.\<close>

definition or_empty :: "string option \<Rightarrow> string" where
  "or_empty x = (case x of None \<Rightarrow> [] | Some s \<Rightarrow> s)"

fun audit_rows :: "state \<Rightarrow> audit \<Rightarrow> nat \<Rightarrow> audit_item list \<Rightarrow> error + audit_row list" where
  "audit_rows st audit idx [] = Inr []"
| "audit_rows st audit idx (ai # ais) =
     (case category_name_of st ai of
        Inl e \<Rightarrow> Inl e
      | Inr cat \<Rightarrow>
          (case checklist_item_of st ai of
             None \<Rightarrow> Inl AttributeError
           | Some ci \<Rightarrow>
               (case audit_rows st audit (idx + 1) ais of
                  Inl e \<Rightarrow> Inl e
                | Inr rows \<Rightarrow>
                    Inr (\<lparr>ar_no = idx, ar_category = cat, ar_checking_item = ci_text ci,
                          ar_score = ai_score ai, ar_record = or_empty (ai_record ai),
                          ar_vendor = a_vendor audit, ar_audit_date = a_audit_date audit,
                          ar_audit_area = a_audit_area audit\<rparr> # rows))))"

definition export_audit :: "state \<Rightarrow> int \<Rightarrow> (error + response) \<times> state" where
  "export_audit st audit_id =
     (case get_or_404 st audit_id of
        Inl e \<Rightarrow> (Inl e, st)
      | Inr audit \<Rightarrow>
          (case audit_rows st audit 1 (audit_items_of st audit) of
             Inl e \<Rightarrow> (Inl e, st)
           | Inr rows \<Rightarrow> (Inr (AuditSheet rows), st)))"

text \<open>
  \<open>AuditItem.query.filter(AuditItem.score != 3)\<close> is the SQL condition
  \<open>score != 3\<close>. A comparison with NULL is unknown in SQL, here \<open>None\<close>, and a WHERE
  clause keeps the rows whose condition is true.
\<close>

definition sql_ne :: "int option \<Rightarrow> int \<Rightarrow> bool option" where
  "sql_ne x v = (case x of None \<Rightarrow> None | Some y \<Rightarrow> Some (y \<noteq> v))"

definition sql_where :: "('a \<Rightarrow> bool option) \<Rightarrow> 'a list \<Rightarrow> 'a list" where
  "sql_where cond rows = filter (\<lambda>r. cond r = Some True) rows"

definition mil_query :: "state \<Rightarrow> audit_item list" where
  "mil_query st = sort_key ai_id (sql_where (\<lambda>ai. sql_ne (ai_score ai) 3) (audit_items st))"

text \<open>\<open>'Open' if ai.score is None or ai.score<3 else 'Closed'\<close>.\<close>

definition mil_status :: "int option \<Rightarrow> string" where
  "mil_status score =
     (case score of None \<Rightarrow> ''Open'' | Some s \<Rightarrow> if s < 3 then ''Open'' else ''Closed'')"

fun mil_rows :: "state \<Rightarrow> nat \<Rightarrow> audit_item list \<Rightarrow> error + mil_row list" where
  "mil_rows st idx [] = Inr []"
| "mil_rows st idx (ai # ais) =
     (case checklist_item_of st ai of
        None \<Rightarrow> Inl AttributeError
      | Some ci \<Rightarrow>
          (case category_of st ci of
             None \<Rightarrow> Inl AttributeError
           | Some c \<Rightarrow>
               (case audit_of st ai of
                  None \<Rightarrow> Inl AttributeError
                | Some a \<Rightarrow>
                    (case mil_rows st (idx + 1) ais of
                       Inl e \<Rightarrow> Inl e
                     | Inr rows \<Rightarrow>
                         Inr (\<lparr>m_no = idx, m_checking_item = ci_text ci,
                               m_category = c_name c, m_record = or_empty (ai_record ai),
                               m_status = mil_status (ai_score ai), m_action = [],
                               m_vendor_dri = a_vendor a, m_due_date = [],
                               m_closed_date = [], m_remark = []\<rparr> # rows)))))"

definition export_mil :: "state \<Rightarrow> (error + response) \<times> state" where
  "export_mil st =
     (case mil_rows st 1 (mil_query st) of
        Inl e \<Rightarrow> (Inl e, st)
      | Inr rows \<Rightarrow>
          if rows = [] then (Inr (Redirect ''/'' [''No MIL items.'']), st)
          else (Inr (MilSheet rows), st))"

section \<open>The percentages as the specification words them\<close>

text \<open>
  The percentage of a list of audit items: the sum of the scores, an unscored item
  counting 0, divided by three times the number of items, times 100; 0 for no items.
  The percentage of a category is that of the audit's items of the category, the
  overall percentage that of all the audit's items.
\<close>

definition score_or_zero :: "audit_item \<Rightarrow> int" where
  "score_or_zero ai = (case ai_score ai of None \<Rightarrow> 0 | Some s \<Rightarrow> s)"

definition spec_percentage :: "audit_item list \<Rightarrow> rat" where
  "spec_percentage items =
     (if items = [] then 0
      else of_int (sum_list (map score_or_zero items)) / of_nat (length items * 3) * 100)"

definition in_category :: "state \<Rightarrow> string \<Rightarrow> audit_item \<Rightarrow> bool" where
  "in_category st cat ai = (category_name_of st ai = Inr cat)"

section \<open>Characters of the photo name prefix\<close>

text \<open>
  A character that every step of \<open>secure_filename\<close> keeps as it is and where it is,
  unless it is stripped from an end: ASCII, no whitespace, no separator, allowed in a
  file name. The digits, the minus sign and the underscore are such characters.
\<close>

definition plain_char :: "char \<Rightarrow> bool" where
  "plain_char c = (is_ascii c \<and> \<not> is_space c \<and> c \<noteq> CHR ''/'' \<and> filename_char c)"

section \<open>Submitted scores and photos\<close>

text \<open>
  \<open>int(score) if score else None\<close> for the score field of a checklist item:
  \<open>score_parses\<close> says that it does not raise, \<open>stored_score\<close> is its value then.
  \<open>item_accepted\<close> says that nothing raises for the item in the loop of \<open>new_audit\<close>:
  its photo, if one was sent, can be written under its stored name, its score is read
  by \<open>int\<close>, and the score fits an INTEGER.
\<close>

definition score_parses :: "request \<Rightarrow> checklist_item \<Rightarrow> bool" where
  "score_parses rq item =
     (case form rq (''score_'' @ py_str (ci_id item)) of
        None \<Rightarrow> True
      | Some sc \<Rightarrow> sc = [] \<or> py_int sc \<noteq> None)"

definition stored_score :: "request \<Rightarrow> checklist_item \<Rightarrow> int option" where
  "stored_score rq item =
     (case form rq (''score_'' @ py_str (ci_id item)) of
        None \<Rightarrow> None
      | Some sc \<Rightarrow> if sc = [] then None else py_int sc)"

definition item_accepted ::
  "(char \<Rightarrow> string) \<Rightarrow> request \<Rightarrow> string list \<Rightarrow> int \<Rightarrow> checklist_item \<Rightarrow> bool" where
  "item_accepted nfkd rq prot audit_id item =
     ((case files rq (''photo_'' @ py_str (ci_id item)) of
         None \<Rightarrow> True
       | Some fn \<Rightarrow> fn = [] \<or> photo_name nfkd audit_id (ci_id item) fn \<notin> set prot) \<and>
      score_parses rq item \<and>
      (case stored_score rq item of None \<Rightarrow> True | Some n \<Rightarrow> in_int64 n))"

section \<open>Sample data\<close>

text \<open>
  A database with one category, three checklist items and one audit whose items are
  scored 3, 0 and not at all.
\<close>

definition st_demo :: state where
  "st_demo = \<lparr>categories = [\<lparr>c_id = 1, c_name = ''Safety''\<rparr>],
     checklist_items = [\<lparr>ci_id = 1, ci_category_id = Some 1, ci_text = ''Guards fitted'', ci_original_spec = Some []\<rparr>,
                        \<lparr>ci_id = 2, ci_category_id = Some 1, ci_text = ''Exits clear'', ci_original_spec = Some []\<rparr>,
                        \<lparr>ci_id = 3, ci_category_id = Some 1, ci_text = ''Signs posted'', ci_original_spec = Some []\<rparr>],
     audits = [\<lparr>a_id = 1, a_vendor = ''Acme'', a_audit_date = 738000, a_audit_area = ''Line 1'', a_created_at = 0\<rparr>],
     audit_items = [\<lparr>ai_id = 1, ai_audit_id = Some 1, ai_checklist_item_id = Some 1, ai_score = Some 3, ai_record = None, ai_photo_filename = None\<rparr>,
                    \<lparr>ai_id = 2, ai_audit_id = Some 1, ai_checklist_item_id = Some 2, ai_score = Some 0, ai_record = Some ''blocked'', ai_photo_filename = None\<rparr>,
                    \<lparr>ai_id = 3, ai_audit_id = Some 1, ai_checklist_item_id = Some 3, ai_score = None, ai_record = None, ai_photo_filename = None\<rparr>],
     uploads = [], protected = []\<rparr>"

text \<open>A database whose only audit item has no score.\<close>

definition st_unscored :: state where
  "st_unscored = \<lparr>categories = [\<lparr>c_id = 1, c_name = ''Safety''\<rparr>],
     checklist_items = [\<lparr>ci_id = 1, ci_category_id = Some 1, ci_text = ''Guards fitted'', ci_original_spec = Some []\<rparr>],
     audits = [\<lparr>a_id = 1, a_vendor = ''Acme'', a_audit_date = 738000, a_audit_area = ''Line 1'', a_created_at = 0\<rparr>],
     audit_items = [\<lparr>ai_id = 1, ai_audit_id = Some 1, ai_checklist_item_id = Some 1, ai_score = None, ai_record = None, ai_photo_filename = None\<rparr>],
     uploads = [], protected = []\<rparr>"

text \<open>A request to update the checklist item 999, which does not exist.\<close>

definition rq_update_missing :: request where
  "rq_update_missing = \<lparr>rq_method = ''POST'',
      form = [''item_id'' \<mapsto> ''999'', ''item_text'' \<mapsto> ''Guards fitted and locked''],
      files = Map.empty, utcnow = 0\<rparr>"

text \<open>A request to set the text of checklist item 2 to the empty string.\<close>

definition rq_blank_text :: request where
  "rq_blank_text = \<lparr>rq_method = ''POST'',
      form = [''item_id'' \<mapsto> ''2'', ''item_text'' \<mapsto> []],
      files = Map.empty, utcnow = 0\<rparr>"

text \<open>The audit of \<open>st_demo\<close>.\<close>

definition audit_demo :: audit where
  "audit_demo = \<lparr>a_id = 1, a_vendor = ''Acme'', a_audit_date = 738000, a_audit_area = ''Line 1'', a_created_at = 0\<rparr>"


text \<open>
  A date parser that knows one date, and a decomposition table that gives no ASCII
  part to any character.
\<close>

definition parse_demo :: "string \<Rightarrow> date option" where
  "parse_demo s = (if s = ''2024-03-05'' then Some 738950 else None)"

definition nfkd_demo :: "char \<Rightarrow> string" where
  "nfkd_demo c = []"

text \<open>
  A request for a new audit: item 1 is scored 2, the score field of item 2 is empty,
  item 3 has no score field; items 1 and 2 come with a photo named \<open>photo.jpg\<close>.
\<close>

definition rq_new :: request where
  "rq_new = \<lparr>rq_method = ''POST'',
      form = [''vendor'' \<mapsto> ''Bolt'', ''audit_date'' \<mapsto> ''2024-03-05'', ''audit_area'' \<mapsto> ''Line 2'',
              ''score_1'' \<mapsto> ''2'', ''record_1'' \<mapsto> ''ok'', ''score_2'' \<mapsto> [], ''record_2'' \<mapsto> []],
      files = [''photo_1'' \<mapsto> ''photo.jpg'', ''photo_2'' \<mapsto> ''photo.jpg'', ''photo_3'' \<mapsto> []], utcnow = 100\<rparr>"

text \<open>A request for a new audit whose score for item 1 is 2 to the power 63.\<close>

definition rq_big_score :: request where
  "rq_big_score = \<lparr>rq_method = ''POST'',
      form = [''vendor'' \<mapsto> ''Bolt'', ''audit_date'' \<mapsto> ''2024-03-05'', ''audit_area'' \<mapsto> ''Line 2'',
              ''score_1'' \<mapsto> ''9223372036854775808''],
      files = Map.empty, utcnow = 100\<rparr>"

text \<open>A request for a new audit whose score for item 2 is not a number.\<close>

definition rq_bad_score :: request where
  "rq_bad_score = \<lparr>rq_method = ''POST'',
      form = [''vendor'' \<mapsto> ''Bolt'', ''audit_date'' \<mapsto> ''2024-03-05'', ''audit_area'' \<mapsto> ''Line 2'',
              ''score_1'' \<mapsto> ''2'', ''score_2'' \<mapsto> ''high''],
      files = Map.empty, utcnow = 100\<rparr>"

section \<open>Properties\<close>

lemmas lookup_defs = checklist_item_of_def category_of_def audit_of_def
  get_checklist_item_def get_category_def get_audit_def in_int64_def

lemmas int_defs = py_int_def is_int_space_def int_max_str_digits_def py_digits_def is_digit_def
  digit_val_def py_strip_def is_space_def

subsection \<open>MIL export\<close>

lemma mil_rows_status:
  "mil_rows st idx ais = Inr rows \<Longrightarrow>
   list_all2 (\<lambda>ai r. m_status r = mil_status (ai_score ai)) ais rows"
  by (induction ais arbitrary: idx rows) (auto split: option.splits sum.splits)

lemma mil_query_iff:
  "ai \<in> set (mil_query st) \<longleftrightarrow> ai \<in> set (audit_items st) \<and> (\<exists>s. ai_score ai = Some s \<and> s \<noteq> 3)"
  by (auto simp: mil_query_def sql_where_def sql_ne_def split: option.splits)

text \<open>
  C1. The claim is that an audit item is exported if and only if its score is null or
  an integer other than 3. The query compares the score with 3 in SQL, where a
  comparison with NULL is not true: in a database whose only audit item is unscored,
  the query selects nothing and the export reports that there are no MIL items.
\<close>

theorem export_mil_drops_unscored:
  "ai_score (hd (audit_items st_unscored)) = None \<and>
   mil_query st_unscored = [] \<and>
   export_mil st_unscored = (Inr (Redirect ''/'' [''No MIL items.'']), st_unscored)"
  by (simp add: st_unscored_def export_mil_def mil_query_def sql_where_def sql_ne_def)

text \<open>
  C9. Every row of the MIL sheet has the status Open when the score of its audit item
  is null or below 3 and Closed otherwise; and when every stored score is null or one
  of 0, 1, 2, 3, every row of the sheet has the status Open.
\<close>

theorem export_mil_status_open:
  assumes "export_mil st = (Inr (MilSheet rows), st')"
  shows "list_all2 (\<lambda>ai r. m_status r =
            (case ai_score ai of None \<Rightarrow> ''Open''
             | Some s \<Rightarrow> if s < 3 then ''Open'' else ''Closed'')) (mil_query st) rows \<and>
         ((\<forall>ai \<in> set (audit_items st). ai_score ai \<in> {None, Some 0, Some 1, Some 2, Some 3}) \<longrightarrow>
          (\<forall>r \<in> set rows. m_status r = ''Open''))"
proof (intro conjI impI ballI)
  from assms have rows: "mil_rows st 1 (mil_query st) = Inr rows"
    by (auto simp: export_mil_def split: sum.splits if_splits)
  from mil_rows_status [OF rows]
  have st: "list_all2 (\<lambda>ai r. m_status r = mil_status (ai_score ai)) (mil_query st) rows" .
  then show "list_all2 (\<lambda>ai r. m_status r =
            (case ai_score ai of None \<Rightarrow> ''Open''
             | Some s \<Rightarrow> if s < 3 then ''Open'' else ''Closed'')) (mil_query st) rows"
    by (simp add: mil_status_def)
  fix r
  assume range: "\<forall>ai \<in> set (audit_items st). ai_score ai \<in> {None, Some 0, Some 1, Some 2, Some 3}"
    and r: "r \<in> set rows"
  from st have len: "length (mil_query st) = length rows"
    and all: "\<forall>(ai, r) \<in> set (zip (mil_query st) rows). m_status r = mil_status (ai_score ai)"
    by (simp_all add: list_all2_iff)
  from len r obtain ai where z: "(ai, r) \<in> set (zip (mil_query st) rows)"
    by (rule in_set_impl_in_set_zip2)
  then have ai: "ai \<in> set (mil_query st)" by (rule set_zip_leftD)
  from all z have eq: "m_status r = mil_status (ai_score ai)" by auto
  from ai obtain s where s: "ai_score ai = Some s" "s \<noteq> 3" and mem: "ai \<in> set (audit_items st)"
    by (auto simp: mil_query_iff)
  from range mem s have "s < 3" by auto
  with eq s show "m_status r = ''Open''" by (simp add: mil_status_def)
qed

theorem export_mil_status_open_witness:
  "export_mil st_demo = (Inr (MilSheet [\<lparr>m_no = 1, m_checking_item = ''Exits clear'',
       m_category = ''Safety'', m_record = ''blocked'', m_status = ''Open'', m_action = [],
       m_vendor_dri = ''Acme'', m_due_date = [], m_closed_date = [], m_remark = []\<rparr>]), st_demo) \<and>
   ai_score ` set (audit_items st_demo) \<subseteq> {None, Some 0, Some 1, Some 2, Some 3} \<and>
   m_status ` set [\<lparr>m_no = 1, m_checking_item = ''Exits clear'',
       m_category = ''Safety'', m_record = ''blocked'', m_status = ''Open'', m_action = [],
       m_vendor_dri = ''Acme'', m_due_date = [], m_closed_date = [], m_remark = []\<rparr>] =
     {''Open''}"
proof -
  have run: "export_mil st_demo = (Inr (MilSheet [\<lparr>m_no = 1, m_checking_item = ''Exits clear'',
       m_category = ''Safety'', m_record = ''blocked'', m_status = ''Open'', m_action = [],
       m_vendor_dri = ''Acme'', m_due_date = [], m_closed_date = [], m_remark = []\<rparr>]), st_demo)"
    by (simp add: st_demo_def export_mil_def mil_query_def sql_where_def sql_ne_def
        mil_status_def lookup_defs or_empty_def)
  have range: "\<forall>ai \<in> set (audit_items st_demo). ai_score ai \<in> {None, Some 0, Some 1, Some 2, Some 3}"
    by (simp add: st_demo_def)
  from range have range': "ai_score ` set (audit_items st_demo) \<subseteq>
      {None, Some 0, Some 1, Some 2, Some 3}"
    by (simp add: st_demo_def)
  from export_mil_status_open [OF run] range
  have "\<forall>r \<in> set [\<lparr>m_no = 1, m_checking_item = ''Exits clear'',
       m_category = ''Safety'', m_record = ''blocked'', m_status = ''Open'', m_action = [],
       m_vendor_dri = ''Acme'', m_due_date = [], m_closed_date = [], m_remark = []\<rparr>].
      m_status r = ''Open''"
    by blast
  then have "m_status ` set [\<lparr>m_no = 1, m_checking_item = ''Exits clear'',
       m_category = ''Safety'', m_record = ''blocked'', m_status = ''Open'', m_action = [],
       m_vendor_dri = ''Acme'', m_due_date = [], m_closed_date = [], m_remark = []\<rparr>] =
     {''Open''}"
    by simp
  with run range' show ?thesis by blast
qed

subsection \<open>Checklist\<close>

text \<open>
  C3. The claim is that updating a checklist item that does not exist ends in a
  not-found response. The handler reads the row with \<open>query.get\<close>, which returns
  \<open>None\<close>, and then sets an attribute of it: the request for item 999 ends in an
  AttributeError, with the stored rows unchanged.
\<close>

theorem update_missing_item_raises:
  "get_checklist_item st_demo 999 = None \<and>
   checklist st_demo rq_update_missing = (Inl AttributeError, st_demo)"
  by (simp add: checklist_def update_checklist_item_def rq_update_missing_def
      get_checklist_item_def in_int64_def st_demo_def int_defs)

lemma find_map_update:
  assumes "find P xs = Some x" and "\<And>y. P (f y) = P y"
  shows "find P (map (\<lambda>y. if P y then f y else y) xs) = Some (f x)"
  using assms(1) by (induction xs) (auto simp: assms(2))

text \<open>
  C7. Adding a category whose trimmed name is empty or is the name of a stored
  category changes nothing and flashes the rejection. Otherwise one row with the
  trimmed name is appended, and adding the same name again is rejected and leaves
  exactly one category with that name.
\<close>

theorem add_category_twice:
  "(py_strip name = [] \<or> (\<exists>c \<in> set (categories st). c_name c = py_strip name) \<longrightarrow>
      add_category st name = (Inr (Redirect ''/checklist'' [''Category exists or empty'']), st)) \<and>
   (py_strip name \<noteq> [] \<and> (\<forall>c \<in> set (categories st). c_name c \<noteq> py_strip name) \<longrightarrow>
      fst (add_category st name) = Inr (Redirect ''/checklist'' [''Category added'']) \<and>
      snd (add_category st name) =
        st\<lparr>categories := categories st @
             [\<lparr>c_id = next_id (map c_id (categories st)), c_name = py_strip name\<rparr>]\<rparr> \<and>
      add_category (snd (add_category st name)) name =
        (Inr (Redirect ''/checklist'' [''Category exists or empty'']), snd (add_category st name)) \<and>
      length (filter (\<lambda>c. c_name c = py_strip name)
                (categories (snd (add_category (snd (add_category st name)) name)))) = 1)"
proof (intro conjI impI)
  assume "py_strip name = [] \<or> (\<exists>c \<in> set (categories st). c_name c = py_strip name)"
  then show "add_category st name = (Inr (Redirect ''/checklist'' [''Category exists or empty'']), st)"
    by (auto simp: add_category_def Let_def find_None_iff)
next
  assume fresh: "py_strip name \<noteq> [] \<and> (\<forall>c \<in> set (categories st). c_name c \<noteq> py_strip name)"
  then have none: "find (\<lambda>c. c_name c = py_strip name) (categories st) = None"
    by (simp add: find_None_iff)
  define st1 where "st1 = st\<lparr>categories := categories st @
             [\<lparr>c_id = next_id (map c_id (categories st)), c_name = py_strip name\<rparr>]\<rparr>"
  from fresh none have first: "add_category st name = (Inr (Redirect ''/checklist'' [''Category added'']), st1)"
    by (simp add: add_category_def Let_def st1_def)
  have "find (\<lambda>c. c_name c = py_strip name) (categories st1) \<noteq> None"
    by (auto simp: st1_def find_None_iff)
  then have second: "add_category st1 name = (Inr (Redirect ''/checklist'' [''Category exists or empty'']), st1)"
    by (simp add: add_category_def Let_def)
  from fresh have "filter (\<lambda>c. c_name c = py_strip name) (categories st) = []"
    by (auto simp: filter_empty_conv)
  then have one: "length (filter (\<lambda>c. c_name c = py_strip name) (categories st1)) = 1"
    by (simp add: st1_def)
  from first show "fst (add_category st name) = Inr (Redirect ''/checklist'' [''Category added''])"
    by simp
  from first show "snd (add_category st name) =
        st\<lparr>categories := categories st @
             [\<lparr>c_id = next_id (map c_id (categories st)), c_name = py_strip name\<rparr>]\<rparr>"
    by (simp add: st1_def)
  from first second show "add_category (snd (add_category st name)) name =
        (Inr (Redirect ''/checklist'' [''Category exists or empty'']), snd (add_category st name))"
    by simp
  from first second one show "length (filter (\<lambda>c. c_name c = py_strip name)
                (categories (snd (add_category (snd (add_category st name)) name)))) = 1"
    by simp
qed

theorem add_category_twice_witness:
  "py_strip '' Quality '' = ''Quality'' \<and>
   ''Quality'' \<notin> c_name ` set (categories st_demo) \<and>
   snd (add_category st_demo '' Quality '') =
     st_demo\<lparr>categories := [\<lparr>c_id = 1, c_name = ''Safety''\<rparr>, \<lparr>c_id = 2, c_name = ''Quality''\<rparr>]\<rparr> \<and>
   add_category (snd (add_category st_demo '' Quality '')) '' Quality '' =
     (Inr (Redirect ''/checklist'' [''Category exists or empty'']),
      snd (add_category st_demo '' Quality '')) \<and>
   add_category st_demo ''Safety'' =
     (Inr (Redirect ''/checklist'' [''Category exists or empty'']), st_demo)"
proof -
  have strip: "py_strip '' Quality '' = ''Quality''" "py_strip ''Safety'' = ''Safety''"
    by (simp_all add: py_strip_def is_space_def)
  have fresh: "\<forall>c \<in> set (categories st_demo). c_name c \<noteq> ''Quality''"
    by (simp add: st_demo_def)
  have dup: "\<exists>c \<in> set (categories st_demo). c_name c = ''Safety''"
    by (simp add: st_demo_def)
  have ids: "next_id (map c_id (categories st_demo)) = 2"
    by (simp add: st_demo_def next_id_def)
  have cats: "categories st_demo = [\<lparr>c_id = 1, c_name = ''Safety''\<rparr>]"
    by (simp add: st_demo_def)
  have new: "st_demo\<lparr>categories := categories st_demo @
             [\<lparr>c_id = next_id (map c_id (categories st_demo)), c_name = ''Quality''\<rparr>]\<rparr> =
        st_demo\<lparr>categories := [\<lparr>c_id = 1, c_name = ''Safety''\<rparr>, \<lparr>c_id = 2, c_name = ''Quality''\<rparr>]\<rparr>"
    by (simp add: cats next_id_def)
  have pre: "py_strip '' Quality '' \<noteq> [] \<and>
      (\<forall>c \<in> set (categories st_demo). c_name c \<noteq> py_strip '' Quality '')"
    using strip fresh by simp
  note q = add_category_twice [of " '' Quality ''" st_demo, THEN conjunct2, rule_format, OF pre,
      unfolded strip(1) new]
  have pre': "py_strip ''Safety'' = [] \<or>
      (\<exists>c \<in> set (categories st_demo). c_name c = py_strip ''Safety'')"
    using strip dup by simp
  note s = add_category_twice [of "''Safety''" st_demo, THEN conjunct1, rule_format, OF pre']
  from fresh have fresh': "''Quality'' \<notin> c_name ` set (categories st_demo)" by auto
  from strip(1) fresh' q s show ?thesis by blast
qed

text \<open>
  C10. Updating an existing checklist item stores the submitted text as it is, with no
  trimming and no test for emptiness, while adding an item whose text is empty after
  trimming inserts nothing. The witness sets the text of a stored item to the empty
  string.
\<close>

theorem update_keeps_text_verbatim:
  assumes "py_int item_id = Some i" and "get_checklist_item st i = Some item"
    and "form rq ''item_text'' = Some text"
  shows "fst (update_checklist_item st rq item_id) =
           Inr (Redirect ''/checklist'' [''Checklist item updated'']) \<and>
         get_checklist_item (snd (update_checklist_item st rq item_id)) i =
           Some (item\<lparr>ci_text := text,
                      ci_original_spec :=
                        Some (case form rq ''original_spec'' of None \<Rightarrow> [] | Some s \<Rightarrow> s)\<rparr>) \<and>
         (\<forall>rq' text'. py_strip text' = [] \<longrightarrow>
            checklist_items (snd (add_checklist_item st rq' text')) = checklist_items st)"
proof (intro conjI allI impI)
  from assms(2) have rng: "in_int64 i"
    by (simp add: get_checklist_item_def split: if_splits)
  from assms rng show "fst (update_checklist_item st rq item_id) =
           Inr (Redirect ''/checklist'' [''Checklist item updated''])"
    by (simp add: update_checklist_item_def)
  let ?f = "\<lambda>ci. ci\<lparr>ci_text := text,
                      ci_original_spec :=
                        Some (case form rq ''original_spec'' of None \<Rightarrow> [] | Some s \<Rightarrow> s)\<rparr>"
  from assms(2) rng have "find (\<lambda>ci. ci_id ci = i) (checklist_items st) = Some item"
    by (simp add: get_checklist_item_def)
  then have "find (\<lambda>ci. ci_id ci = i)
               (map (\<lambda>ci. if ci_id ci = i then ?f ci else ci) (checklist_items st)) = Some (?f item)"
    by (rule find_map_update) simp
  with assms rng show "get_checklist_item (snd (update_checklist_item st rq item_id)) i =
           Some (?f item)"
    by (simp add: update_checklist_item_def get_checklist_item_def)
next
  fix rq' text'
  assume "py_strip text' = []"
  then show "checklist_items (snd (add_checklist_item st rq' text')) = checklist_items st"
    by (simp add: add_checklist_item_def Let_def split: option.splits)
qed

theorem update_keeps_text_verbatim_witness:
  "py_int ''2'' = Some 2 \<and>
   get_checklist_item st_demo 2 = Some \<lparr>ci_id = 2, ci_category_id = Some 1,
      ci_text = ''Exits clear'', ci_original_spec = Some []\<rparr> \<and>
   form rq_blank_text ''item_text'' = Some [] \<and>
   get_checklist_item (snd (update_checklist_item st_demo rq_blank_text ''2'')) 2 =
     Some \<lparr>ci_id = 2, ci_category_id = Some 1, ci_text = [], ci_original_spec = Some []\<rparr> \<and>
   checklist_items (snd (add_checklist_item st_demo rq_blank_text ''   '')) =
     checklist_items st_demo"
proof -
  have a: "py_int ''2'' = Some 2" by (simp add: int_defs)
  have b: "get_checklist_item st_demo 2 = Some \<lparr>ci_id = 2, ci_category_id = Some 1,
      ci_text = ''Exits clear'', ci_original_spec = Some []\<rparr>"
    by (simp add: get_checklist_item_def in_int64_def st_demo_def)
  have c: "form rq_blank_text ''item_text'' = Some []" by (simp add: rq_blank_text_def)
  have d: "form rq_blank_text ''original_spec'' = None" by (simp add: rq_blank_text_def)
  have e: "py_strip ''   '' = []" by (simp add: py_strip_def is_space_def)
  from update_keeps_text_verbatim [OF a b c] a b c d e show ?thesis by simp
qed

subsection \<open>Audits list\<close>

lemma map_of_tally_item:
  "map_of (tally_item cat score d) =
     (map_of d)(cat \<mapsto>
        \<lparr>cs_sum = (case map_of d cat of None \<Rightarrow> 0 | Some e \<Rightarrow> cs_sum e) +
                   (case score of None \<Rightarrow> 0 | Some s \<Rightarrow> s),
         cs_count = (case map_of d cat of None \<Rightarrow> 0 | Some e \<Rightarrow> cs_count e) + 1\<rparr>)"
  by (auto simp: tally_item_def Let_def map_of_map_entry update_conv' fun_eq_iff
      split: option.splits)

lemma distinct_tally_item:
  "distinct (map fst d) \<Longrightarrow> distinct (map fst (tally_item cat score d))"
  by (auto simp: tally_item_def Let_def split: option.splits
      intro!: distinct_map_entry distinct_update)

lemma tally_result:
  assumes "tally st ais (d, ts, ti) = Inr (d', ts', ti')" and "distinct (map fst d)"
  shows "ts' = ts + sum_list (map score_or_zero ais) \<and>
         ti' = ti + length ais \<and>
         distinct (map fst d') \<and>
         (\<forall>ai \<in> set ais. \<exists>cat. category_name_of st ai = Inr cat) \<and>
         (\<forall>cat. map_of d' cat =
            (if filter (in_category st cat) ais = [] then map_of d cat
             else Some \<lparr>cs_sum = (case map_of d cat of None \<Rightarrow> 0 | Some e \<Rightarrow> cs_sum e) +
                                   sum_list (map score_or_zero (filter (in_category st cat) ais)),
                        cs_count = (case map_of d cat of None \<Rightarrow> 0 | Some e \<Rightarrow> cs_count e) +
                                   length (filter (in_category st cat) ais)\<rparr>))"
  using assms
proof (induction ais arbitrary: d ts ti)
  case Nil
  then show ?case by simp
next
  case (Cons ai ais)
  from Cons.prems(1) obtain c where c: "category_name_of st ai = Inr c"
    by (auto split: sum.splits)
  let ?d = "tally_item c (ai_score ai) d"
  from Cons.prems(1) c have run: "tally st ais (?d, ts + score_or_zero ai, ti + 1) = Inr (d', ts', ti')"
    by (simp add: score_or_zero_def split: option.splits)
  from Cons.prems(2) have dist: "distinct (map fst ?d)" by (rule distinct_tally_item)
  note IH = Cons.IH [OF run dist]
  have cat_iff: "in_category st cat ai \<longleftrightarrow> cat = c" for cat
    using c by (auto simp: in_category_def)
  show ?case
  proof (intro conjI ballI allI)
    from IH show "ts' = ts + sum_list (map score_or_zero (ai # ais))" by simp
    from IH show "ti' = ti + length (ai # ais)" by simp
    from IH show "distinct (map fst d')" by simp
  next
    fix x assume "x \<in> set (ai # ais)"
    with IH c show "\<exists>cat. category_name_of st x = Inr cat" by auto
  next
    fix cat
    from IH have m: "map_of d' cat =
            (if filter (in_category st cat) ais = [] then map_of ?d cat
             else Some \<lparr>cs_sum = (case map_of ?d cat of None \<Rightarrow> 0 | Some e \<Rightarrow> cs_sum e) +
                                   sum_list (map score_or_zero (filter (in_category st cat) ais)),
                        cs_count = (case map_of ?d cat of None \<Rightarrow> 0 | Some e \<Rightarrow> cs_count e) +
                                   length (filter (in_category st cat) ais)\<rparr>)"
      by blast
    show "map_of d' cat =
            (if filter (in_category st cat) (ai # ais) = [] then map_of d cat
             else Some \<lparr>cs_sum = (case map_of d cat of None \<Rightarrow> 0 | Some e \<Rightarrow> cs_sum e) +
                                   sum_list (map score_or_zero (filter (in_category st cat) (ai # ais))),
                        cs_count = (case map_of d cat of None \<Rightarrow> 0 | Some e \<Rightarrow> cs_count e) +
                                   length (filter (in_category st cat) (ai # ais))\<rparr>)"
      unfolding m
      by (simp add: cat_iff map_of_tally_item score_or_zero_def split: option.splits)
  qed
qed


lemma tally_line:
  assumes "tally st items ([], 0, 0) = Inr (d, ts, ti)"
  shows "percentage ts ti = spec_percentage items"
    and "(cat, sc) \<in> set d \<Longrightarrow>
         percentage (cs_sum sc) (cs_count sc) = spec_percentage (filter (in_category st cat) items)"
    and "fst ` set d = {cat. \<exists>ai \<in> set items. in_category st cat ai}"
proof -
  from tally_result [OF assms] have ts: "ts = sum_list (map score_or_zero items)"
    and ti: "ti = length items" and dist: "distinct (map fst d)"
    and m: "\<And>cat. map_of d cat =
            (if filter (in_category st cat) items = [] then None
             else Some \<lparr>cs_sum = sum_list (map score_or_zero (filter (in_category st cat) items)),
                        cs_count = length (filter (in_category st cat) items)\<rparr>)"
    by simp_all
  show "percentage ts ti = spec_percentage items"
    by (simp add: ts ti percentage_def spec_percentage_def)
  show "percentage (cs_sum sc) (cs_count sc) = spec_percentage (filter (in_category st cat) items)"
    if "(cat, sc) \<in> set d"
  proof -
    from that dist have "map_of d cat = Some sc" by simp
    with m [of cat] have ne: "filter (in_category st cat) items \<noteq> []"
      and sc: "sc = \<lparr>cs_sum = sum_list (map score_or_zero (filter (in_category st cat) items)),
                     cs_count = length (filter (in_category st cat) items)\<rparr>"
      by (auto split: if_splits)
    from ne show ?thesis
      by (simp add: sc percentage_def spec_percentage_def)
  qed
  have "fst ` set d = dom (map_of d)" by (simp add: dom_map_of_conv_image_fst)
  also have "\<dots> = {cat. filter (in_category st cat) items \<noteq> []}"
    by (auto simp: dom_def m)
  also have "\<dots> = {cat. \<exists>ai \<in> set items. in_category st cat ai}"
    by (auto simp: filter_empty_conv)
  finally show "fst ` set d = {cat. \<exists>ai \<in> set items. in_category st cat ai}" .
qed

lemma audit_lines_percentages:
  assumes "audit_lines st as = Inr ls" and "l \<in> set ls"
  shows "al_total l = spec_percentage (audit_items_of st (al_audit l)) \<and>
         (\<forall>(cat, p) \<in> set (al_categories l).
            p = spec_percentage (filter (in_category st cat) (audit_items_of st (al_audit l)))) \<and>
         fst ` set (al_categories l) =
           {cat. \<exists>ai \<in> set (audit_items_of st (al_audit l)). in_category st cat ai}"
  using assms
proof (induction as arbitrary: ls)
  case Nil
  then show ?case by simp
next
  case (Cons a as)
  from Cons.prems(1) obtain d ts ti ls'
    where t: "tally st (audit_items_of st a) ([], 0, 0) = Inr (d, ts, ti)"
      and rest: "audit_lines st as = Inr ls'"
      and ls: "ls = \<lparr>al_audit = a,
                     al_categories =
                       map (\<lambda>(cat, sc). (cat, percentage (cs_sum sc) (cs_count sc))) d,
                     al_total = percentage ts ti\<rparr> # ls'"
    by (auto split: sum.splits)
  from Cons.prems(2) ls consider
      "l = \<lparr>al_audit = a,
             al_categories = map (\<lambda>(cat, sc). (cat, percentage (cs_sum sc) (cs_count sc))) d,
             al_total = percentage ts ti\<rparr>"
    | "l \<in> set ls'"
    by auto
  then show ?case
  proof cases
    case 1
    have "fst ` set (map (\<lambda>(cat, sc). (cat, percentage (cs_sum sc) (cs_count sc))) d) =
          fst ` set d"
      by force
    with 1 tally_line(1) [OF t] tally_line(2) [OF t] tally_line(3) [OF t]
    show ?thesis by auto
  next
    case 2
    with Cons.IH [OF rest] show ?thesis by blast
  qed
qed

lemma tally_returns:
  "\<forall>ai \<in> set ais. \<exists>cat. category_name_of st ai = Inr cat \<Longrightarrow> \<exists>r. tally st ais acc = Inr r"
proof (induction ais arbitrary: acc)
  case Nil
  show ?case by (simp del: split_paired_Ex)
next
  case (Cons ai ais)
  obtain d ts ti where acc: "acc = (d, ts, ti)" using prod_cases3 by blast
  from Cons.prems obtain cat where cat: "category_name_of st ai = Inr cat" by auto
  from Cons.prems have "\<forall>x \<in> set ais. \<exists>cat. category_name_of st x = Inr cat" by simp
  from Cons.IH [OF this] show ?case by (simp add: acc cat)
qed

lemma audit_lines_returns:
  "\<forall>ai \<in> set (audit_items st). \<exists>cat. category_name_of st ai = Inr cat \<Longrightarrow>
   \<exists>ls. audit_lines st as = Inr ls"
proof (induction as)
  case Nil
  then show ?case by simp
next
  case (Cons a as)
  then have "\<forall>ai \<in> set (audit_items_of st a). \<exists>cat. category_name_of st ai = Inr cat"
    by (simp add: audit_items_of_def)
  from tally_returns [OF this] obtain r where "tally st (audit_items_of st a) ([], 0, 0) = Inr r"
    by blast
  moreover from Cons obtain ls where "audit_lines st as = Inr ls" by blast
  ultimately show ?case by (cases r) auto
qed

lemma audits_list_returns:
  "\<forall>ai \<in> set (audit_items st). \<exists>cat. category_name_of st ai = Inr cat \<Longrightarrow>
   \<exists>ls. audits_list st = (Inr (AuditsPage ls), st)"
  using audit_lines_returns [of st "sort_key (\<lambda>a. - a_audit_date a) (audits st)"]
  by (auto simp: audits_list_def)

text \<open>
  C4. For every line of the audits page, the percentage shown for a category is the
  sum of the scores of the audit's items of that category, unscored items counting 0,
  divided by three times their number, times 100; the total is the same quotient over
  all the audit's items; the categories shown are those of the audit's items; and no
  items give 0. The quotient is exact here, where Python rounds to a float. The
  witness is an audit whose one category is scored 3, 0 and unscored.
\<close>

theorem audits_list_percentages:
  assumes "audits_list st = (Inr (AuditsPage ls), st')"
  shows "(\<forall>l \<in> set ls.
            al_total l = spec_percentage (audit_items_of st (al_audit l)) \<and>
            (\<forall>(cat, p) \<in> set (al_categories l).
               p = spec_percentage (filter (in_category st cat) (audit_items_of st (al_audit l)))) \<and>
            fst ` set (al_categories l) =
              {cat. \<exists>ai \<in> set (audit_items_of st (al_audit l)). in_category st cat ai}) \<and>
         (\<forall>s. percentage s 0 = 0) \<and> spec_percentage [] = 0"
proof -
  from assms have run: "audit_lines st (sort_key (\<lambda>a. - a_audit_date a) (audits st)) = Inr ls"
    by (auto simp: audits_list_def split: sum.splits)
  have lines: "\<forall>l \<in> set ls.
            al_total l = spec_percentage (audit_items_of st (al_audit l)) \<and>
            (\<forall>(cat, p) \<in> set (al_categories l).
               p = spec_percentage (filter (in_category st cat) (audit_items_of st (al_audit l)))) \<and>
            fst ` set (al_categories l) =
              {cat. \<exists>ai \<in> set (audit_items_of st (al_audit l)). in_category st cat ai}"
    using audit_lines_percentages [OF run] by blast
  have zero: "\<forall>s. percentage s 0 = 0" by (simp add: percentage_def)
  have empty: "spec_percentage [] = 0" by (simp add: spec_percentage_def)
  from lines zero empty show ?thesis by blast
qed

theorem audits_list_percentages_witness:
  "audits_list st_demo =
     (Inr (AuditsPage [\<lparr>al_audit = audit_demo, al_categories = [(''Safety'', 100 / 3)],
                         al_total = 100 / 3\<rparr>]), st_demo) \<and>
   map ai_score (filter (in_category st_demo ''Safety'') (audit_items_of st_demo audit_demo)) =
     [Some 3, Some 0, None] \<and>
   spec_percentage (filter (in_category st_demo ''Safety'') (audit_items_of st_demo audit_demo)) =
     (3 + 0 + 0) / (3 * 3) * 100 \<and>
   spec_percentage (audit_items_of st_demo audit_demo) = 100 / 3"
proof -
  have run: "audits_list st_demo =
     (Inr (AuditsPage [\<lparr>al_audit = audit_demo, al_categories = [(''Safety'', 100 / 3)],
                         al_total = 100 / 3\<rparr>]), st_demo)"
    by (simp add: audits_list_def audit_items_of_def category_name_of_def lookup_defs
        tally_item_def percentage_def st_demo_def audit_demo_def)
  have scores: "map ai_score (filter (in_category st_demo ''Safety'')
      (audit_items_of st_demo audit_demo)) = [Some 3, Some 0, None]"
    by (simp add: in_category_def audit_items_of_def category_name_of_def lookup_defs
        st_demo_def audit_demo_def)
  from audits_list_percentages [OF run]
  have "spec_percentage (audit_items_of st_demo audit_demo) = 100 / 3"
    and "spec_percentage (filter (in_category st_demo ''Safety'')
           (audit_items_of st_demo audit_demo)) = 100 / 3"
    by simp_all
  with run scores show ?thesis by simp
qed

subsection \<open>Delete audit\<close>






lemma delete_audit_overflow:
  "\<not> in_int64 audit_id \<Longrightarrow> delete_audit st audit_id = (Inl OverflowError, st)"
  by (simp add: delete_audit_def get_or_404_def)

lemma export_audit_overflow:
  "\<not> in_int64 audit_id \<Longrightarrow> export_audit st audit_id = (Inl OverflowError, st)"
  by (simp add: export_audit_def get_or_404_def)




subsection \<open>New audit\<close>

lemmas str_defs = py_str_def digits.simps digit_char_def
lemmas name_defs = photo_name_def secure_filename_def to_ascii_def is_ascii_def py_split_def
  filename_char_def strip_chars_def

lemma add_items_accept:
  assumes "item_accepted nfkd rq prot aid item"
  shows "add_items nfkd rq prot aid (item # items) nid pending ups =
     add_items nfkd rq prot aid items (nid + 1)
       (pending @
        [\<lparr>ai_id = nid, ai_audit_id = Some aid, ai_checklist_item_id = Some (ci_id item),
          ai_score = stored_score rq item,
          ai_record = form rq (''record_'' @ py_str (ci_id item)),
          ai_photo_filename =
            (case files rq (''photo_'' @ py_str (ci_id item)) of
               None \<Rightarrow> None
             | Some fn \<Rightarrow>
                 if fn \<noteq> [] then Some (photo_name nfkd aid (ci_id item) fn) else None)\<rparr>])
       (case files rq (''photo_'' @ py_str (ci_id item)) of
          None \<Rightarrow> ups
        | Some fn \<Rightarrow>
            if fn \<noteq> [] then List.insert (photo_name nfkd aid (ci_id item) fn) ups else ups)"
  using assms
  by (auto simp: Let_def item_accepted_def score_parses_def stored_score_def save_def
      split: option.splits)

lemma add_items_reject:
  assumes "\<not> item_accepted nfkd rq prot aid item"
  shows "\<exists>e ups'. add_items nfkd rq prot aid (item # items) nid pending ups = (Inl e, ups') \<and>
           e \<in> {OSError, ValueError, OverflowError}"
  using assms
  by (auto simp: Let_def item_accepted_def score_parses_def stored_score_def save_def
      split: option.splits)

lemma add_items_Inr:
  assumes "add_items nfkd rq prot aid items nid pending ups = (Inr rows, ups')"
  shows "\<exists>new. rows = pending @ new \<and>
           list_all2 (\<lambda>item r. ai_checklist_item_id r = Some (ci_id item) \<and>
                               ai_audit_id r = Some aid \<and>
                               ai_score r = stored_score rq item) items new"
  using assms
proof (induction items arbitrary: nid pending ups)
  case Nil
  then show ?case by simp
next
  case (Cons item items)
  have ok: "item_accepted nfkd rq prot aid item"
  proof (rule ccontr)
    assume "\<not> item_accepted nfkd rq prot aid item"
    from add_items_reject [OF this, of items nid pending ups] Cons.prems show False by auto
  qed
  let ?row = "\<lparr>ai_id = nid, ai_audit_id = Some aid, ai_checklist_item_id = Some (ci_id item),
          ai_score = stored_score rq item,
          ai_record = form rq (''record_'' @ py_str (ci_id item)),
          ai_photo_filename =
            (case files rq (''photo_'' @ py_str (ci_id item)) of
               None \<Rightarrow> None
             | Some fn \<Rightarrow>
                 if fn \<noteq> [] then Some (photo_name nfkd aid (ci_id item) fn) else None)\<rparr>"
  from Cons.prems obtain u where
    "add_items nfkd rq prot aid items (nid + 1) (pending @ [?row]) u = (Inr rows, ups')"
    unfolding add_items_accept [OF ok] by blast
  from Cons.IH [OF this] obtain new where
    "rows = (pending @ [?row]) @ new"
    "list_all2 (\<lambda>item r. ai_checklist_item_id r = Some (ci_id item) \<and>
                               ai_audit_id r = Some aid \<and>
                               ai_score r = stored_score rq item) items new"
    by blast
  then have "rows = pending @ (?row # new) \<and>
    list_all2 (\<lambda>item r. ai_checklist_item_id r = Some (ci_id item) \<and>
                               ai_audit_id r = Some aid \<and>
                               ai_score r = stored_score rq item) (item # items) (?row # new)"
    by simp
  then show ?case by blast
qed

lemma add_items_returns:
  "\<forall>item \<in> set items. item_accepted nfkd rq prot aid item \<Longrightarrow>
   \<exists>rows ups'. add_items nfkd rq prot aid items nid pending ups = (Inr rows, ups')"
proof (induction items arbitrary: nid pending ups)
  case Nil
  then show ?case by simp
next
  case (Cons item items)
  then have ok: "item_accepted nfkd rq prot aid item"
    and rest: "\<forall>x \<in> set items. item_accepted nfkd rq prot aid x"
    by simp_all
  from Cons.IH [OF rest] show ?case
    unfolding add_items_accept [OF ok] by blast
qed

lemma add_items_fails:
  "\<not> (\<forall>item \<in> set items. item_accepted nfkd rq prot aid item) \<Longrightarrow>
   \<exists>e ups'. add_items nfkd rq prot aid items nid pending ups = (Inl e, ups') \<and>
             e \<in> {OSError, ValueError, OverflowError}"
proof (induction items arbitrary: nid pending ups)
  case Nil
  then show ?case by simp
next
  case (Cons item items)
  show ?case
  proof (cases "item_accepted nfkd rq prot aid item")
    case True
    with Cons.prems have "\<not> (\<forall>x \<in> set items. item_accepted nfkd rq prot aid x)" by simp
    from Cons.IH [OF this] show ?thesis
      unfolding add_items_accept [OF True] by blast
  next
    case False
    then show ?thesis by (rule add_items_reject)
  qed
qed

lemma list_all2_map_eq:
  "list_all2 (\<lambda>x y. g y = f x) xs ys \<Longrightarrow> map g ys = map f xs"
  by (induction xs ys rule: list_all2_induct) simp_all

lemma new_audit_valid_header:
  assumes "rq_method rq = ''POST''" and "form rq ''vendor'' = Some vendor"
    and "form rq ''audit_date'' = Some d" and "parse d = Some audit_date"
    and "form rq ''audit_area'' = Some area"
  shows "new_audit parse nfkd st rq =
     (let audit = \<lparr>a_id = next_id (map a_id (audits st)), a_vendor = vendor,
                    a_audit_date = audit_date, a_audit_area = area,
                    a_created_at = utcnow rq\<rparr>;
          st1 = st\<lparr>audits := audits st @ [audit]\<rparr>
      in case add_items nfkd rq (protected st) (a_id audit)
                (sort_key ci_id (checklist_items st))
                (next_id (map ai_id (audit_items st))) [] (uploads st) of
           (Inl e, ups) \<Rightarrow> (Inl e, st1\<lparr>uploads := ups\<rparr>)
         | (Inr pending, ups) \<Rightarrow>
             (Inr (Redirect ''/audits'' [''Audit created successfully!'']),
              st1\<lparr>audit_items := audit_items st @ pending, uploads := ups\<rparr>))"
  using assms by (simp add: new_audit_def Let_def split: prod.splits sum.splits)

lemma new_audit_success:
  assumes "fst (new_audit parse nfkd st rq) = Inr (Redirect ''/audits'' [''Audit created successfully!''])"
  shows "\<exists>pending ups.
           add_items nfkd rq (protected st) (next_id (map a_id (audits st)))
             (sort_key ci_id (checklist_items st))
             (next_id (map ai_id (audit_items st))) [] (uploads st) = (Inr pending, ups) \<and>
           audit_items (snd (new_audit parse nfkd st rq)) = audit_items st @ pending"
proof -
  from assms have post: "rq_method rq = ''POST''"
    by (auto simp: new_audit_def Let_def split: if_splits)
  from assms post obtain vendor where v: "form rq ''vendor'' = Some vendor"
    by (cases "form rq ''vendor''") (auto simp: new_audit_def Let_def)
  from assms post v obtain d where d: "form rq ''audit_date'' = Some d"
    by (cases "form rq ''audit_date''") (auto simp: new_audit_def Let_def)
  from assms post v d obtain audit_date where i: "parse d = Some audit_date"
    by (cases "parse d") (auto simp: new_audit_def Let_def)
  from assms post v d i obtain area where a: "form rq ''audit_area'' = Some area"
    by (cases "form rq ''audit_area''") (auto simp: new_audit_def Let_def)
  note eq = new_audit_valid_header [of rq vendor d parse audit_date area nfkd st, OF post v d i a]
  obtain res ups where r: "add_items nfkd rq (protected st) (next_id (map a_id (audits st)))
      (sort_key ci_id (checklist_items st)) (next_id (map ai_id (audit_items st))) []
      (uploads st) = (res, ups)"
    by fastforce
  from assms obtain pending where p: "res = Inr pending"
    by (cases res) (auto simp: eq r Let_def)
  have "audit_items (snd (new_audit parse nfkd st rq)) = audit_items st @ pending"
    by (simp add: eq r p Let_def)
  with r p show ?thesis by blast
qed

text \<open>
  C5. A new audit that ends in the success redirect has appended one audit item per
  checklist item, in the order of the checklist item ids: each row references its
  checklist item and the new audit, all checklist items are covered, the references
  are distinct when the checklist item ids are, and an item with no submitted score
  has a row with a null score.
\<close>

theorem new_audit_rows:
  assumes "fst (new_audit parse nfkd st rq) =
             Inr (Redirect ''/audits'' [''Audit created successfully!''])"
  shows "\<exists>new. audit_items (snd (new_audit parse nfkd st rq)) = audit_items st @ new \<and>
           length new = length (checklist_items st) \<and>
           list_all2 (\<lambda>item r. ai_checklist_item_id r = Some (ci_id item) \<and>
                               ai_audit_id r = Some (next_id (map a_id (audits st))) \<and>
                               ai_score r = stored_score rq item \<and>
                               (form rq (''score_'' @ py_str (ci_id item)) = None \<longrightarrow>
                                  ai_score r = None))
             (sort_key ci_id (checklist_items st)) new \<and>
           set (map ai_checklist_item_id new) = Some ` ci_id ` set (checklist_items st) \<and>
           (distinct (map ci_id (checklist_items st)) \<longrightarrow>
              distinct (map ai_checklist_item_id new))"
proof -
  let ?items = "sort_key ci_id (checklist_items st)"
  from new_audit_success [OF assms] obtain pending ups where
    run: "add_items nfkd rq (protected st) (next_id (map a_id (audits st))) ?items
             (next_id (map ai_id (audit_items st))) [] (uploads st) = (Inr pending, ups)"
    and rows: "audit_items (snd (new_audit parse nfkd st rq)) = audit_items st @ pending"
    by blast
  from add_items_Inr [OF run] have rel:
    "list_all2 (\<lambda>item r. ai_checklist_item_id r = Some (ci_id item) \<and>
                          ai_audit_id r = Some (next_id (map a_id (audits st))) \<and>
                          ai_score r = stored_score rq item) ?items pending"
    by simp
  then have len: "length pending = length (checklist_items st)"
    by (auto dest: list_all2_lengthD)
  from rel have "list_all2 (\<lambda>item r. ai_checklist_item_id r = (Some \<circ> ci_id) item) ?items pending"
    by (auto elim: list_all2_mono)
  then have ids: "map ai_checklist_item_id pending = map (Some \<circ> ci_id) ?items"
    by (rule list_all2_map_eq)
  have cover: "set (map ai_checklist_item_id pending) = Some ` ci_id ` set (checklist_items st)"
    by (auto simp: ids)
  have dist: "distinct (map ai_checklist_item_id pending)"
    if "distinct (map ci_id (checklist_items st))"
  proof -
    from that have "distinct (map ci_id ?items)"
      by (simp add: distinct_map)
    then show ?thesis
      by (simp add: ids distinct_map comp_inj_on_iff [symmetric] inj_on_def)
  qed
  from rel have rel': "list_all2 (\<lambda>item r. ai_checklist_item_id r = Some (ci_id item) \<and>
                               ai_audit_id r = Some (next_id (map a_id (audits st))) \<and>
                               ai_score r = stored_score rq item \<and>
                               (form rq (''score_'' @ py_str (ci_id item)) = None \<longrightarrow>
                                  ai_score r = None)) ?items pending"
    by (rule list_all2_mono) (auto simp: stored_score_def)
  from rows len rel' cover dist show ?thesis by blast
qed


lemmas new_audit_eval = new_audit_def st_demo_def parse_demo_def next_id_def str_defs int_defs
  Let_def name_defs save_def in_int64_def

theorem new_audit_rows_witness:
  "fst (new_audit parse_demo nfkd_demo st_demo rq_new) =
     Inr (Redirect ''/audits'' [''Audit created successfully!'']) \<and>
   length (audit_items (snd (new_audit parse_demo nfkd_demo st_demo rq_new))) =
     length (audit_items st_demo) + length (checklist_items st_demo) \<and>
   map ai_checklist_item_id (drop 3 (audit_items (snd (new_audit parse_demo nfkd_demo st_demo rq_new)))) =
     [Some 1, Some 2, Some 3] \<and>
   map ai_score (drop 3 (audit_items (snd (new_audit parse_demo nfkd_demo st_demo rq_new)))) =
     [Some 2, None, None] \<and>
   form rq_new ''score_3'' = None"
proof -
  have run: "fst (new_audit parse_demo nfkd_demo st_demo rq_new) =
     Inr (Redirect ''/audits'' [''Audit created successfully!''])"
    by (simp add: new_audit_eval rq_new_def)
  from new_audit_rows [OF run] obtain new where
    "audit_items (snd (new_audit parse_demo nfkd_demo st_demo rq_new)) = audit_items st_demo @ new"
    "length new = length (checklist_items st_demo)"
    by blast
  then have len: "length (audit_items (snd (new_audit parse_demo nfkd_demo st_demo rq_new))) =
     length (audit_items st_demo) + length (checklist_items st_demo)"
    by simp
  have ids: "map ai_checklist_item_id
      (drop 3 (audit_items (snd (new_audit parse_demo nfkd_demo st_demo rq_new)))) =
     [Some 1, Some 2, Some 3]"
    by (simp add: new_audit_eval rq_new_def)
  have scores: "map ai_score
      (drop 3 (audit_items (snd (new_audit parse_demo nfkd_demo st_demo rq_new)))) =
     [Some 2, None, None]"
    by (simp add: new_audit_eval rq_new_def)
  have absent: "form rq_new ''score_3'' = None"
    by (simp add: rq_new_def)
  from run len ids scores absent show ?thesis by blast
qed

text \<open>
  C2. The claim is that the header and the item rows are committed as one unit. The
  handler commits the header before the loop over the items: with a score that
  \<open>int\<close> rejects, the request ends in a ValueError and the new audit is stored with
  none of the three items of the checklist.
\<close>

theorem new_audit_header_without_items:
  "fst (new_audit parse_demo nfkd_demo st_demo rq_bad_score) = Inl ValueError \<and>
   audits (snd (new_audit parse_demo nfkd_demo st_demo rq_bad_score)) =
     audits st_demo @ [\<lparr>a_id = 2, a_vendor = ''Bolt'', a_audit_date = 738950,
                         a_audit_area = ''Line 2'', a_created_at = 100\<rparr>] \<and>
   audit_items_of (snd (new_audit parse_demo nfkd_demo st_demo rq_bad_score))
     \<lparr>a_id = 2, a_vendor = ''Bolt'', a_audit_date = 738950,
       a_audit_area = ''Line 2'', a_created_at = 100\<rparr> = [] \<and>
   length (checklist_items (snd (new_audit parse_demo nfkd_demo st_demo rq_bad_score))) = 3"
  by (simp add: new_audit_eval rq_bad_score_def audit_items_of_def)

text \<open>
  C2, as amended. Once the vendor, the date and the area are accepted, the header row
  is stored whatever follows. If for some checklist item the photo cannot be written,
  the submitted score is rejected by \<open>int\<close> or the score does not fit an INTEGER, the
  request ends in an OSError, a ValueError or an OverflowError and no audit item is
  stored; otherwise the request succeeds and one audit item per checklist item is
  stored with the header.
\<close>

theorem new_audit_header_first:
  assumes "rq_method rq = ''POST''" and "form rq ''vendor'' = Some vendor"
    and "form rq ''audit_date'' = Some d" and "parse d = Some audit_date"
    and "form rq ''audit_area'' = Some area"
  shows "audits (snd (new_audit parse nfkd st rq)) =
           audits st @ [\<lparr>a_id = next_id (map a_id (audits st)), a_vendor = vendor,
                          a_audit_date = audit_date, a_audit_area = area,
                          a_created_at = utcnow rq\<rparr>] \<and>
         ((\<exists>item \<in> set (checklist_items st).
              \<not> item_accepted nfkd rq (protected st) (next_id (map a_id (audits st))) item) \<longrightarrow>
            fst (new_audit parse nfkd st rq) \<in> {Inl OSError, Inl ValueError, Inl OverflowError} \<and>
            audit_items (snd (new_audit parse nfkd st rq)) = audit_items st) \<and>
         ((\<forall>item \<in> set (checklist_items st).
              item_accepted nfkd rq (protected st) (next_id (map a_id (audits st))) item) \<longrightarrow>
            fst (new_audit parse nfkd st rq) =
              Inr (Redirect ''/audits'' [''Audit created successfully!'']) \<and>
            (\<exists>new. audit_items (snd (new_audit parse nfkd st rq)) = audit_items st @ new \<and>
               list_all2 (\<lambda>item r. ai_checklist_item_id r = Some (ci_id item) \<and>
                                   ai_audit_id r = Some (next_id (map a_id (audits st))))
                 (sort_key ci_id (checklist_items st)) new))"
proof -
  let ?items = "sort_key ci_id (checklist_items st)"
  let ?aid = "next_id (map a_id (audits st))"
  let ?run = "add_items nfkd rq (protected st) ?aid ?items
      (next_id (map ai_id (audit_items st))) [] (uploads st)"
  note eq = new_audit_valid_header [of rq vendor d parse audit_date area nfkd st, OF assms]
  obtain res ups where r: "?run = (res, ups)" by fastforce
  have hdr: "audits (snd (new_audit parse nfkd st rq)) =
           audits st @ [\<lparr>a_id = next_id (map a_id (audits st)), a_vendor = vendor,
                          a_audit_date = audit_date, a_audit_area = area,
                          a_created_at = utcnow rq\<rparr>]"
    by (cases res) (simp_all add: eq r Let_def)
  have bad: "fst (new_audit parse nfkd st rq) \<in> {Inl OSError, Inl ValueError, Inl OverflowError} \<and>
            audit_items (snd (new_audit parse nfkd st rq)) = audit_items st"
    if "\<exists>item \<in> set (checklist_items st). \<not> item_accepted nfkd rq (protected st) ?aid item"
  proof -
    from that have "\<not> (\<forall>item \<in> set ?items. item_accepted nfkd rq (protected st) ?aid item)"
      by simp
    from add_items_fails [OF this] obtain e u where "?run = (Inl e, u)"
      and e: "e \<in> {OSError, ValueError, OverflowError}"
      by blast
    with r have "res = Inl e" by simp
    with e show ?thesis by (auto simp: eq r Let_def)
  qed
  have good: "fst (new_audit parse nfkd st rq) =
              Inr (Redirect ''/audits'' [''Audit created successfully!'']) \<and>
            (\<exists>new. audit_items (snd (new_audit parse nfkd st rq)) = audit_items st @ new \<and>
               list_all2 (\<lambda>item r. ai_checklist_item_id r = Some (ci_id item) \<and>
                                   ai_audit_id r = Some (next_id (map a_id (audits st))))
                 ?items new)"
    if "\<forall>item \<in> set (checklist_items st). item_accepted nfkd rq (protected st) ?aid item"
  proof -
    from that have "\<forall>item \<in> set ?items. item_accepted nfkd rq (protected st) ?aid item"
      by simp
    from add_items_returns [OF this] obtain rows u where "?run = (Inr rows, u)" by blast
    with r have res: "res = Inr rows" by simp
    from add_items_Inr [of nfkd rq _ _ ?items _ "[]" _ rows ups] r res
    have "list_all2 (\<lambda>item r. ai_checklist_item_id r = Some (ci_id item) \<and>
                               ai_audit_id r = Some (next_id (map a_id (audits st))) \<and>
                               ai_score r = stored_score rq item) ?items rows"
      by simp
    then have "list_all2 (\<lambda>item r. ai_checklist_item_id r = Some (ci_id item) \<and>
                               ai_audit_id r = Some (next_id (map a_id (audits st)))) ?items rows"
      by (rule list_all2_mono) simp
    moreover have "fst (new_audit parse nfkd st rq) =
              Inr (Redirect ''/audits'' [''Audit created successfully!''])"
      and "audit_items (snd (new_audit parse nfkd st rq)) = audit_items st @ rows"
      by (simp_all add: eq r res Let_def)
    ultimately show ?thesis by blast
  qed
  from hdr bad good show ?thesis by blast
qed

theorem new_audit_header_first_witness:
  "rq_method rq_big_score = ''POST'' \<and>
   form rq_big_score ''vendor'' = Some ''Bolt'' \<and>
   form rq_big_score ''audit_date'' = Some ''2024-03-05'' \<and>
   parse_demo ''2024-03-05'' = Some 738950 \<and>
   form rq_big_score ''audit_area'' = Some ''Line 2'' \<and>
   stored_score rq_big_score (checklist_items st_demo ! 0) = Some (2 ^ 63) \<and>
   \<not> item_accepted nfkd_demo rq_big_score (protected st_demo) 2 (checklist_items st_demo ! 0) \<and>
   fst (new_audit parse_demo nfkd_demo st_demo rq_big_score) = Inl OverflowError \<and>
   audit_items (snd (new_audit parse_demo nfkd_demo st_demo rq_big_score)) = audit_items st_demo \<and>
   map a_id (audits (snd (new_audit parse_demo nfkd_demo st_demo rq_big_score))) = [1, 2]"
proof -
  have pre: "rq_method rq_big_score = ''POST''"
    "form rq_big_score ''vendor'' = Some ''Bolt''"
    "form rq_big_score ''audit_date'' = Some ''2024-03-05''"
    "parse_demo ''2024-03-05'' = Some 738950"
    "form rq_big_score ''audit_area'' = Some ''Line 2''"
    by (simp_all add: rq_big_score_def parse_demo_def)
  have score: "stored_score rq_big_score (checklist_items st_demo ! 0) = Some (2 ^ 63)"
    by (simp add: stored_score_def rq_big_score_def st_demo_def str_defs int_defs)
  have ids: "next_id (map a_id (audits st_demo)) = 2"
    by (simp add: st_demo_def next_id_def)
  from score have bad: "\<not> item_accepted nfkd_demo rq_big_score (protected st_demo) 2
      (checklist_items st_demo ! 0)"
    by (simp add: item_accepted_def in_int64_def)
  have mem: "checklist_items st_demo ! 0 \<in> set (checklist_items st_demo)"
    by (simp add: st_demo_def)
  note t = new_audit_header_first [of rq_big_score "''Bolt''" "''2024-03-05''" parse_demo 738950
      "''Line 2''" nfkd_demo st_demo, OF pre, unfolded ids]
  from t bad mem
  have rows: "audit_items (snd (new_audit parse_demo nfkd_demo st_demo rq_big_score)) =
      audit_items st_demo"
    by blast
  have err: "fst (new_audit parse_demo nfkd_demo st_demo rq_big_score) = Inl OverflowError"
    by (simp add: new_audit_eval rq_big_score_def)
  from t have "map a_id (audits (snd (new_audit parse_demo nfkd_demo st_demo rq_big_score))) =
      map a_id (audits st_demo) @ [2]"
    by simp
  then have hdr: "map a_id (audits (snd (new_audit parse_demo nfkd_demo st_demo rq_big_score))) =
      [1, 2]"
    by (simp add: st_demo_def)
  from pre score bad err rows hdr show ?thesis by blast
qed

subsection \<open>Photo names\<close>

lemma is_digit_cases:
  "is_digit c \<longleftrightarrow> c = CHR ''0'' \<or> c = CHR ''1'' \<or> c = CHR ''2'' \<or> c = CHR ''3'' \<or> c = CHR ''4'' \<or>
     c = CHR ''5'' \<or> c = CHR ''6'' \<or> c = CHR ''7'' \<or> c = CHR ''8'' \<or> c = CHR ''9''"
  by (auto simp: is_digit_def)

lemma digit_plain: "is_digit c \<Longrightarrow> plain_char c"
  by (auto simp: is_digit_cases plain_char_def is_ascii_def is_space_def filename_char_def)

lemma digit_not_sep: "is_digit c \<Longrightarrow> c \<noteq> CHR ''_'' \<and> c \<noteq> CHR ''.'' \<and> c \<noteq> CHR ''-'' \<and> c \<noteq> CHR ''+''"
  by (auto simp: is_digit_cases)

lemma minus_plain: "plain_char CHR ''-''"
  by (simp add: plain_char_def is_ascii_def is_space_def filename_char_def)

lemma underscore_plain: "plain_char CHR ''_''"
  by (simp add: plain_char_def is_ascii_def is_space_def filename_char_def)

lemma digit_char_digit: "d < 10 \<Longrightarrow> is_digit (digit_char d)"
  unfolding is_digit_def digit_char_def by (rule nth_mem) simp

lemma digit_val_char: "d < 10 \<Longrightarrow> digit_val (digit_char d) = d"
proof -
  assume "d < 10"
  then have "d \<in> {0, 1, 2, 3, 4, 5, 6, 7, 8, 9}" by auto
  then show ?thesis
    by (auto simp: digit_val_def digit_char_def)
qed

lemma digits_all_digit: "\<forall>c \<in> set (digits n). is_digit c"
proof (induction n rule: digits.induct)
  case (1 n)
  show ?case
  proof (cases "n < 10")
    case True
    then show ?thesis by (simp add: digits.simps [of n] digit_char_digit)
  next
    case False
    with 1 show ?thesis
      by (simp add: digits.simps [of n] digit_char_digit)
  qed
qed

lemma digits_nonempty: "digits n \<noteq> []"
  by (simp add: digits.simps [of n])

lemma digit_run_digits:
  "\<forall>c \<in> set xs. is_digit c \<Longrightarrow>
   digit_run acc xs = Some (foldl (\<lambda>a c. a * 10 + digit_val c) acc xs)"
  by (induction xs arbitrary: acc) simp_all

lemma foldl_digits: "foldl (\<lambda>a c. a * 10 + digit_val c) 0 (digits n) = n"
proof (induction n rule: digits.induct)
  case (1 n)
  show ?case
  proof (cases "n < 10")
    case True
    then show ?thesis by (simp add: digits.simps [of n] digit_val_char)
  next
    case False
    with 1 show ?thesis
      by (simp add: digits.simps [of n] digit_val_char)
  qed
qed

lemma py_digits_digits: "py_digits (digits n) = Some n"
proof -
  obtain c cs where d: "digits n = c # cs"
    using digits_nonempty [of n] by (cases "digits n") auto
  with digits_all_digit [of n] have c: "is_digit c" and cs: "\<forall>x \<in> set cs. is_digit x"
    by auto
  have "py_digits (digits n) = digit_run (digit_val c) cs"
    by (simp add: py_digits_def d c)
  also have "\<dots> = Some (foldl (\<lambda>a c. a * 10 + digit_val c) (digit_val c) cs)"
    by (rule digit_run_digits [OF cs])
  also have "foldl (\<lambda>a c. a * 10 + digit_val c) (digit_val c) cs =
      foldl (\<lambda>a c. a * 10 + digit_val c) 0 (digits n)"
    by (simp add: d)
  finally show ?thesis by (simp add: foldl_digits)
qed

lemma py_str_plain: "\<forall>c \<in> set (py_str i). plain_char c"
  using digits_all_digit by (auto simp: py_str_def digit_plain minus_plain)

lemma py_str_no_underscore: "CHR ''_'' \<notin> set (py_str i)"
  using digits_all_digit digit_not_sep by (auto simp: py_str_def)

lemma py_str_nonempty: "py_str i \<noteq> []"
  by (simp add: py_str_def digits_nonempty)

lemma py_str_hd: "hd (py_str i) \<notin> set ''._'' \<and> \<not> is_space (hd (py_str i))"
proof (cases "i < 0")
  case True
  then show ?thesis by (simp add: py_str_def is_space_def)
next
  case False
  have "is_digit (hd (digits (nat i)))"
    using digits_all_digit [of "nat i"] digits_nonempty [of "nat i"] by (cases "digits (nat i)") auto
  with False show ?thesis
    using digit_not_sep digit_plain by (auto simp: py_str_def plain_char_def)
qed

lemma py_str_last: "is_digit (last (py_str i))"
proof -
  have "is_digit (last (digits n))" for n
    using digits_all_digit [of n] last_in_set [OF digits_nonempty [of n]] by blast
  then show ?thesis by (simp add: py_str_def digits_nonempty)
qed

lemma digits_inj: "digits n = digits m \<Longrightarrow> n = m"
  by (metis foldl_digits)

lemma digits_hd: "is_digit (hd (digits n))"
  using digits_all_digit [of n] digits_nonempty [of n] by (cases "digits n") auto

lemma py_str_inj: "py_str i = py_str j \<Longrightarrow> i = j"
proof -
  assume eq: "py_str i = py_str j"
  have clash: False if "CHR ''-'' # digits n = digits m" for n m
  proof -
    from that have "hd (digits m) = CHR ''-''" by (metis list.sel(1))
    with digits_hd [of m] digit_not_sep show False by auto
  qed
  show "i = j"
  proof (cases "i < 0")
    case i: True
    show ?thesis
    proof (cases "j < 0")
      case True
      with i eq have "nat (- i) = nat (- j)" by (auto simp: py_str_def dest: digits_inj)
      with i True show ?thesis by simp
    next
      case False
      with i eq clash [of "nat (- i)" "nat j"] show ?thesis by (simp add: py_str_def)
    qed
  next
    case i: False
    show ?thesis
    proof (cases "j < 0")
      case True
      with i eq clash [of "nat (- j)" "nat i"] show ?thesis by (simp add: py_str_def)
    next
      case False
      with i eq have "nat i = nat j" by (auto simp: py_str_def dest: digits_inj)
      with i False show ?thesis by simp
    qed
  qed
qed

lemma digits_length: "n < 10 ^ k \<Longrightarrow> 0 < k \<Longrightarrow> length (digits n) \<le> k"
proof (induction n arbitrary: k rule: digits.induct)
  case (1 n)
  show ?case
  proof (cases "n < 10")
    case True
    with 1(3) show ?thesis by (simp add: digits.simps [of n])
  next
    case False
    with 1(2) have k: "1 < k" by (cases "k = 1") (use 1(3) in auto)
    then obtain k' where k': "k = Suc k'" "0 < k'" by (cases k) auto
    with 1(2) have "n div 10 < 10 ^ k'" by (simp add: less_mult_imp_div_less mult.commute)
    from 1(1) [OF False this k'(2)] False k' show ?thesis
      by (simp add: digits.simps [of n])
  qed
qed

lemma int_strip_id:
  assumes "s \<noteq> []" and "\<not> is_int_space (hd s)" and "\<not> is_int_space (last s)"
  shows "rev (dropWhile is_int_space (rev (dropWhile is_int_space s))) = s"
proof -
  from assms have "dropWhile is_int_space s = s" by (cases s) auto
  moreover from assms have "dropWhile is_int_space (rev s) = rev s"
    by (cases "rev s") (auto simp: last_rev [symmetric] hd_rev)
  ultimately show ?thesis by simp
qed

lemma digit_not_int_space: "is_digit c \<Longrightarrow> \<not> is_int_space c"
  by (auto simp: is_digit_cases is_int_space_def)

lemma py_int_py_str:
  assumes "in_int64 i"
  shows "py_int (py_str i) = Some i"
proof -
  have "\<not> is_int_space (hd (py_str i))"
    using digits_hd digit_not_int_space by (auto simp: py_str_def is_int_space_def)
  moreover have "\<not> is_int_space (last (py_str i))"
    using py_str_last [of i] digit_not_int_space by auto
  ultimately have strip:
    "rev (dropWhile is_int_space (rev (dropWhile is_int_space (py_str i)))) = py_str i"
    using py_str_nonempty by (intro int_strip_id) auto
  have short: "length (digits n) \<le> 19" if "n \<le> 2 ^ 63" for n :: nat
  proof -
    from that have "n < 10 ^ 19" by simp
    then show ?thesis by (rule digits_length) simp
  qed
  have few: "\<not> int_max_str_digits < length (filter is_digit (py_str i))"
  proof -
    from assms have "nat \<bar>i\<bar> \<le> 2 ^ 63" by (auto simp: in_int64_def)
    from short [OF this] have "length (py_str i) \<le> 20"
      by (auto simp: py_str_def abs_if split: if_splits)
    moreover have "length (filter is_digit (py_str i)) \<le> length (py_str i)"
      by (rule length_filter_le)
    ultimately have "length (filter is_digit (py_str i)) \<le> 20" by linarith
    then show ?thesis by (simp add: int_max_str_digits_def)
  qed
  obtain c cs where str: "py_str i = c # cs"
    using py_str_nonempty [of i] by (cases "py_str i") auto
  from few have few': "\<not> int_max_str_digits < length (filter is_digit (c # cs))"
    unfolding str .
  have unfold: "py_int (py_str i) =
      (if c = CHR ''-'' then map_option (\<lambda>n. - int n) (py_digits cs)
       else if c = CHR ''+'' then map_option int (py_digits cs)
       else map_option int (py_digits (c # cs)))"
    by (simp only: py_int_def str strip [unfolded str] list.case few' if_False)
  show ?thesis
  proof (cases "i < 0")
    case True
    with str have "c = CHR ''-''" "cs = digits (nat (- i))" by (simp_all add: py_str_def)
    with True show ?thesis by (simp add: unfold py_digits_digits)
  next
    case False
    with str have d: "digits (nat i) = c # cs" by (simp add: py_str_def)
    with digits_all_digit [of "nat i"] have "is_digit c" by auto
    then have "c \<noteq> CHR ''-''" "c \<noteq> CHR ''+''" using digit_not_sep by auto
    moreover from py_digits_digits [of "nat i"] d have "py_digits (c # cs) = Some (nat i)"
      by simp
    ultimately show ?thesis using False by (simp add: unfold)
  qed
qed

lemma to_ascii_prefix:
  assumes "\<forall>c \<in> set p. is_ascii c"
  shows "to_ascii nfkd (p @ f) = p @ to_ascii nfkd f"
proof -
  from assms have "concat (map (\<lambda>c. if is_ascii c then [c] else nfkd c) p) = p"
    by (induction p) simp_all
  moreover from assms have "filter is_ascii p = p" by simp
  ultimately show ?thesis by (simp add: to_ascii_def)
qed

lemma split_ws_prefix:
  "\<forall>c \<in> set p. \<not> is_space c \<Longrightarrow> split_ws cur (p @ g) = split_ws (cur @ p) g"
  by (induction p arbitrary: cur) simp_all

lemma join_Cons: "join sep (w # ws) = (if ws = [] then w else w @ sep @ join sep ws)"
  by (cases ws) simp_all

lemma join_split_ws:
  "w \<noteq> [] \<Longrightarrow> \<exists>h. join ''_'' (split_ws w g) = w @ h"
proof (induction g arbitrary: w)
  case Nil
  then show ?case by simp
next
  case (Cons c cs)
  show ?case
  proof (cases "is_space c")
    case True
    with Cons.prems show ?thesis by (simp add: join_Cons)
  next
    case False
    from Cons.IH [of "w @ [c]"] obtain h where "join ''_'' (split_ws (w @ [c]) cs) = (w @ [c]) @ h"
      by auto
    with False show ?thesis by simp
  qed
qed

lemma strip_chars_prefix:
  assumes "q \<noteq> []" and "hd q \<notin> set cs" and "last q \<notin> set cs"
  shows "strip_chars cs (q @ r) = q @ rev (dropWhile (\<lambda>c. c \<in> set cs) (rev r))"
proof -
  let ?P = "\<lambda>c. c \<in> set cs"
  from assms have front: "dropWhile ?P (q @ r) = q @ r" by (cases q) auto
  from assms have rear: "dropWhile ?P (rev q) = rev q"
    by (cases "rev q") (auto simp: hd_rev)
  have "dropWhile ?P (rev r @ rev q) = dropWhile ?P (rev r) @ rev q"
  proof (cases "\<forall>x \<in> set (rev r). ?P x")
    case True
    then have "dropWhile ?P (rev r) = []" by simp
    with True rear show ?thesis by (simp add: dropWhile_append)
  next
    case False
    then show ?thesis by (auto simp: dropWhile_append)
  qed
  with front show ?thesis by (simp add: strip_chars_def)
qed

lemma rstrip_head:
  "rev (dropWhile P (rev (x # k))) = [] \<or> hd (rev (dropWhile P (rev (x # k)))) = x"
  by (auto simp: dropWhile_append)

lemma secure_filename_prefix:
  assumes plain: "\<forall>c \<in> set q. plain_char c" and q: "q \<noteq> []" "hd q \<notin> set ''._''"
    "last q \<notin> set ''._''"
  shows "\<exists>t. secure_filename nfkd (q @ CHR ''_'' # f) = q @ t \<and> (t = [] \<or> hd t = CHR ''_'')"
proof -
  define p where "p = q @ ''_''"
  from plain underscore_plain have pp: "\<forall>c \<in> set p. plain_char c"
    by (simp add: p_def)
  then have ascii: "\<forall>c \<in> set p. is_ascii c" and nospace: "\<forall>c \<in> set p. \<not> is_space c"
    and noslash: "\<forall>c \<in> set p. c \<noteq> CHR ''/''" and fchars: "\<forall>c \<in> set p. filename_char c"
    by (auto simp: plain_char_def)
  have ne: "p \<noteq> []" by (simp add: p_def)
  let ?slash = "\<lambda>c. if c = CHR ''/'' then CHR '' '' else c"
  define g where "g = map ?slash (to_ascii nfkd f)"
  from noslash have "map ?slash p = p" by (intro map_idI) auto
  then have f2: "map ?slash (to_ascii nfkd (p @ f)) = p @ g"
    by (simp only: to_ascii_prefix [OF ascii] map_append g_def)
  have "py_split (p @ g) = split_ws p g"
    using split_ws_prefix [OF nospace, of "[]" g] by (simp add: py_split_def)
  moreover obtain h where "join ''_'' (split_ws p g) = p @ h"
    using join_split_ws [OF ne, of g] by auto
  ultimately have "join ''_'' (py_split (p @ g)) = p @ h" by simp
  moreover from fchars have "filter filename_char p = p" by simp
  ultimately have f3: "filter filename_char (join ''_'' (py_split (p @ g))) =
      p @ filter filename_char h"
    by simp
  define t where
    "t = rev (dropWhile (\<lambda>c. c \<in> set ''._'') (rev (CHR ''_'' # filter filename_char h)))"
  have "secure_filename nfkd (p @ f) = strip_chars ''._'' (p @ filter filename_char h)"
    by (simp only: secure_filename_def Let_def f2 f3)
  also have "p @ filter filename_char h = q @ (CHR ''_'' # filter filename_char h)"
    by (simp add: p_def)
  also have "strip_chars ''._'' (q @ (CHR ''_'' # filter filename_char h)) = q @ t"
    unfolding t_def by (rule strip_chars_prefix [OF q])
  finally have "secure_filename nfkd (q @ CHR ''_'' # f) = q @ t"
    by (simp add: p_def)
  moreover have "t = [] \<or> hd t = CHR ''_''"
    unfolding t_def by (rule rstrip_head)
  ultimately show ?thesis by blast
qed

lemma photo_name_shape:
  "\<exists>t. photo_name nfkd a b f = py_str a @ ''_'' @ py_str b @ t \<and> (t = [] \<or> hd t = CHR ''_'')"
proof -
  define q where "q = py_str a @ ''_'' @ py_str b"
  have plain: "\<forall>c \<in> set q. plain_char c"
    using py_str_plain underscore_plain by (auto simp: q_def)
  have ne: "q \<noteq> []" by (simp add: q_def py_str_nonempty)
  have "hd q = hd (py_str a)" by (simp add: q_def py_str_nonempty)
  with py_str_hd [of a] have h: "hd q \<notin> set ''._''" by simp
  have "last q = last (py_str b)" by (simp add: q_def py_str_nonempty)
  with py_str_last [of b] digit_not_sep [of "last (py_str b)"] have l: "last q \<notin> set ''._''"
    by simp
  from secure_filename_prefix [OF plain ne h l, of nfkd f] obtain t
    where "secure_filename nfkd (q @ CHR ''_'' # f) = q @ t" and "t = [] \<or> hd t = CHR ''_''"
    by blast
  then have "photo_name nfkd a b f = py_str a @ ''_'' @ py_str b @ t \<and> (t = [] \<or> hd t = CHR ''_'')"
    by (simp add: photo_name_def q_def)
  then show ?thesis by blast
qed

lemma decode_ids:
  assumes "r = sa @ ''_'' @ sb @ t" and "CHR ''_'' \<notin> set sa" and "CHR ''_'' \<notin> set sb"
    and "t = [] \<or> hd t = CHR ''_''"
  shows "takeWhile (\<lambda>c. c \<noteq> CHR ''_'') r = sa"
    and "takeWhile (\<lambda>c. c \<noteq> CHR ''_'') (tl (dropWhile (\<lambda>c. c \<noteq> CHR ''_'') r)) = sb"
proof -
  let ?P = "\<lambda>c. c \<noteq> CHR ''_''"
  from assms(2) have sa: "\<forall>x \<in> set sa. ?P x" by auto
  from assms(1) sa show "takeWhile ?P r = sa"
    by (simp add: takeWhile_tail)
  from assms(1) sa have "dropWhile ?P r = CHR ''_'' # sb @ t"
    by (simp add: dropWhile_append3)
  then have "tl (dropWhile ?P r) = sb @ t" by simp
  moreover have "takeWhile ?P (sb @ t) = sb"
  proof -
    from assms(3) have sb: "\<forall>x \<in> set sb. ?P x" by auto
    show ?thesis
    proof (cases t)
      case Nil
      with sb show ?thesis by simp
    next
      case (Cons x xs)
      with assms(4) have "x = CHR ''_''" by simp
      with Cons sb show ?thesis by (simp add: takeWhile_tail)
    qed
  qed
  ultimately show "takeWhile ?P (tl (dropWhile ?P r)) = sb" by simp
qed

text \<open>
  C8. The names under which two photos are stored differ whenever the photos belong to
  different audits or to different checklist items, whatever the names the client
  sent: the stored name starts with the two ids in decimal, each followed by an
  underscore or the end of the name, and nothing in \<open>secure_filename\<close> touches them.
  The witness is item 1 and item 2 of audit 7, both with \<open>photo.jpg\<close>.
\<close>

theorem photo_name_distinct:
  "(a, b) \<noteq> (a', b') \<Longrightarrow> photo_name nfkd a b f \<noteq> photo_name nfkd a' b' f'"
proof
  assume ne: "(a, b) \<noteq> (a', b')" and eq: "photo_name nfkd a b f = photo_name nfkd a' b' f'"
  from photo_name_shape [of nfkd a b f] obtain t where
    r: "photo_name nfkd a b f = py_str a @ ''_'' @ py_str b @ t" and t: "t = [] \<or> hd t = CHR ''_''"
    by blast
  from photo_name_shape [of nfkd a' b' f'] obtain t' where
    r': "photo_name nfkd a' b' f' = py_str a' @ ''_'' @ py_str b' @ t'"
    and t': "t' = [] \<or> hd t' = CHR ''_''"
    by blast
  note d = decode_ids [OF r py_str_no_underscore py_str_no_underscore t]
  note d' = decode_ids [OF r' py_str_no_underscore py_str_no_underscore t']
  from d(1) d'(1) eq have "py_str a = py_str a'" by simp
  moreover from d(2) d'(2) eq have "py_str b = py_str b'" by simp
  ultimately have "a = a'" "b = b'" by (auto dest: py_str_inj)
  with ne show False by simp
qed

theorem photo_name_distinct_witness:
  "((7, 1) :: int \<times> int) \<noteq> (7, 2) \<and>
   photo_name nfkd_demo 7 1 ''photo.jpg'' = ''7_1_photo.jpg'' \<and>
   photo_name nfkd_demo 7 2 ''photo.jpg'' = ''7_2_photo.jpg'' \<and>
   photo_name nfkd_demo 7 1 ''photo.jpg'' \<noteq> photo_name nfkd_demo 7 2 ''photo.jpg''"
proof -
  have ne: "((7, 1) :: int \<times> int) \<noteq> (7, 2)" by simp
  have a: "photo_name nfkd_demo 7 1 ''photo.jpg'' = ''7_1_photo.jpg''"
    by (simp add: name_defs str_defs is_space_def)
  have b: "photo_name nfkd_demo 7 2 ''photo.jpg'' = ''7_2_photo.jpg''"
    by (simp add: name_defs str_defs is_space_def)
  from ne a b photo_name_distinct [OF ne, of nfkd_demo "''photo.jpg''" "''photo.jpg''"]
  show ?thesis by blast
qed

end
